theory Spec2Isabelle
  imports Main "HOL-Library.Log_Nat"
begin

section \<open>The background update coordinator (src/background/update.ts)\<close>

text \<open>
  The class \<open>Update\<close> of \<^verbatim>\<open>src/background/update.ts\<close> is embedded as pure functions
  over a record of its mutable fields.  Every \<^verbatim>\<open>async\<close> method is run to the end with the
  answers of its collaborators (clock, storage, network, tag database) given as arguments,
  so each \<^verbatim>\<open>await\<close> is an argument of the model.  What the class does to the outside
  (broadcasts, badge calls, requests) is appended to a log in program order.  Where other
  requests can run between two steps of a method (the grace period of line 61), the steps
  are separate functions, so that a later step can be applied to any state.
\<close>

subsection \<open>JavaScript values\<close>

text \<open>
  A JavaScript number as far as this file produces one: byte counts and percentages are
  non-negative integers, and \<^verbatim>\<open>Math.floor(loaded / total * 100)\<close> is \<^verbatim>\<open>NaN\<close> for
  \<^verbatim>\<open>0 / 0\<close> and \<^verbatim>\<open>Infinity\<close> for \<^verbatim>\<open>n / 0\<close>.
\<close>

datatype number = Num nat | Infinity | NaN

fun string_of_nat :: "nat \<Rightarrow> string" where
  "string_of_nat n =
     (if n < 10 then [''0123456789'' ! n]
      else string_of_nat (n div 10) @ [''0123456789'' ! (n mod 10)])"

declare string_of_nat.simps [simp del]

text \<open>\<^verbatim>\<open>String(x)\<close> and \<^verbatim>\<open>x.toFixed(0)\<close> agree on these values (integers below \<open>10\<^sup>2\<^sup>1\<close>).\<close>

fun number_toString :: "number \<Rightarrow> string" where
  "number_toString (Num n) = string_of_nat n"
| "number_toString Infinity = ''Infinity''"
| "number_toString NaN = ''NaN''"

text \<open>
  What a \<^verbatim>\<open>throw\<close> or a rejection carries: an \<^verbatim>\<open>Error\<close> object with its message, a
  \<^verbatim>\<open>TypeError\<close> with its message, or the event object that \<^verbatim>\<open>xhr.onerror\<close> receives
  (it has no \<^verbatim>\<open>message\<close>).
\<close>

datatype thrown = Error string | TypeError string | ErrorEvent

text \<open>How an \<^verbatim>\<open>async\<close> call ends: it returns, it throws, or its promise is never settled.\<close>

datatype 'a outcome = Returned 'a | Thrown thrown | Pending

text \<open>The message literals of the source, as their UTF-8 bytes.\<close>

definition msg_loading :: string where
  "msg_loading = [CHR 0xE5, CHR 0x8A, CHR 0xA0, CHR 0xE8, CHR 0xBD, CHR 0xBD, CHR 0xE4, CHR 0xB8, CHR 0xAD]"

definition msg_update_complete :: string where
  "msg_update_complete = [CHR 0xE6, CHR 0x9B, CHR 0xB4, CHR 0xE6, CHR 0x96, CHR 0xB0,
     CHR 0xE5, CHR 0xAE, CHR 0x8C, CHR 0xE6, CHR 0x88, CHR 0x90]"

definition msg_update_failed :: string where
  "msg_update_failed = [CHR 0xE6, CHR 0x9B, CHR 0xB4, CHR 0xE6, CHR 0x96, CHR 0xB0,
     CHR 0xE5, CHR 0xA4, CHR 0xB1, CHR 0xE8, CHR 0xB4, CHR 0xA5]"

definition msg_version_info_unavailable :: string where
  "msg_version_info_unavailable = [CHR 0xE6, CHR 0x97, CHR 0xA0, CHR 0xE6, CHR 0xB3, CHR 0x95,
     CHR 0xE8, CHR 0x8E, CHR 0xB7, CHR 0xE5, CHR 0x8F, CHR 0x96, CHR 0xE7, CHR 0x89, CHR 0x88,
     CHR 0xE6, CHR 0x9C, CHR 0xAC, CHR 0xE4, CHR 0xBF, CHR 0xA1, CHR 0xE6, CHR 0x81, CHR 0xAF]"

definition msg_asset_url_missing :: string where
  "msg_asset_url_missing = [CHR 0xE6, CHR 0x97, CHR 0xA0, CHR 0xE6, CHR 0xB3, CHR 0x95,
     CHR 0xE8, CHR 0x8E, CHR 0xB7, CHR 0xE5, CHR 0x8F, CHR 0x96, CHR 0xE4, CHR 0xB8, CHR 0x8B,
     CHR 0xE8, CHR 0xBD, CHR 0xBD, CHR 0xE5, CHR 0x9C, CHR 0xB0, CHR 0xE5, CHR 0x9D, CHR 0x80]"

definition msg_data_parse_failed :: string where
  "msg_data_parse_failed = [CHR 0xE6, CHR 0x95, CHR 0xB0, CHR 0xE6, CHR 0x8D, CHR 0xAE,
     CHR 0xE6, CHR 0x97, CHR 0xA0, CHR 0xE6, CHR 0xB3, CHR 0x95, CHR 0xE8, CHR 0xA7, CHR 0xA3,
     CHR 0xE6, CHR 0x9E, CHR 0x90]"

definition msg_download_complete :: string where
  "msg_download_complete = [CHR 0xE4, CHR 0xB8, CHR 0x8B, CHR 0xE8, CHR 0xBD, CHR 0xBD,
     CHR 0xE5, CHR 0xAE, CHR 0x8C, CHR 0xE6, CHR 0x88, CHR 0x90]"

text \<open>The failures of \<^verbatim>\<open>download()\<close> under the names the specification gives them.\<close>

definition VersionInfoUnavailable :: thrown where
  "VersionInfoUnavailable = Error msg_version_info_unavailable"

definition AssetUrlMissing :: thrown where
  "AssetUrlMissing = Error msg_asset_url_missing"

definition DataParseFailed :: thrown where
  "DataParseFailed = Error msg_data_parse_failed"

subsection \<open>The data model\<close>

text \<open>
  The release document of the GitHub API, restricted to the fields the code reads.
  A field that is absent or otherwise falsy is \<open>None\<close> (for \<^verbatim>\<open>target_commitish\<close> and
  \<^verbatim>\<open>assets\<close>) or the empty string (for the URL and link fields, which the code only
  tests for truthiness or passes on).
\<close>

record asset =
  name :: string
  browser_download_url :: string

record release =
  target_commitish :: "string option"
  html_url :: string
  assets :: "asset list option"

record ReleaseCheckData =
  old :: string
  oldLink :: string
  new :: string
  newLink :: string
  timestamp :: int
  githubRelease :: "release option"

record DownloadStatus =
  run :: bool
  progress :: number
  info :: string
  complete :: bool
  error :: bool

definition defaultStatus :: DownloadStatus where
  "defaultStatus = \<lparr>run = False, progress = Num 0, info = [], complete = False, error = False\<rparr>"

definition initialCheckData :: ReleaseCheckData where
  "initialCheckData = \<lparr>old = [], oldLink = [], new = [], newLink = [], timestamp = 0,
     githubRelease = None\<rparr>"

text \<open>What the coordinator does to its collaborators, in program order.\<close>

datatype effect =
    Broadcast DownloadStatus
  | BadgeSet string string "nat option"
  | StorageGet
  | Fetch string
  | XhrSend string
  | DbUpdate string string
  | LogError thrown
  | Sleep nat

text \<open>
  The fields of the class.  The two \<^verbatim>\<open>BehaviorSubject\<close>s are their current values;
  the subscription of the constructor (line 44) broadcasts every value passed to
  \<^verbatim>\<open>downloadStatus.next\<close>.
\<close>

record Update =
  lastCheckData :: ReleaseCheckData
  downloadStatus :: DownloadStatus
  loadLock :: bool
  effects :: "effect list"

definition new_Update :: Update where
  "new_Update = \<lparr>lastCheckData = initialCheckData, downloadStatus = defaultStatus,
     loadLock = False, effects = [Broadcast defaultStatus]\<rparr>"

definition emit :: "effect \<Rightarrow> Update \<Rightarrow> Update" where
  "emit e u = u\<lparr>effects := effects u @ [e]\<rparr>"

definition downloadStatus_next :: "DownloadStatus \<Rightarrow> Update \<Rightarrow> Update" where
  "downloadStatus_next v u = emit (Broadcast v) (u\<lparr>downloadStatus := v\<rparr>)"

definition badgeLoading_set :: "string \<Rightarrow> string \<Rightarrow> nat option \<Rightarrow> Update \<Rightarrow> Update" where
  "badgeLoading_set t c p u = emit (BadgeSet t c p) u"

subsection \<open>initDownloadStatus and pushDownloadStatus (lines 72-81)\<close>

definition initDownloadStatus :: "Update \<Rightarrow> Update" where
  "initDownloadStatus u = downloadStatus_next defaultStatus u"

text \<open>A \<^verbatim>\<open>Partial<DownloadStatus>\<close> literal is the list of the fields it sets.\<close>

datatype status_field =
    F_run bool
  | F_progress number
  | F_info string
  | F_complete bool
  | F_error bool

fun assign :: "status_field \<Rightarrow> DownloadStatus \<Rightarrow> DownloadStatus" where
  "assign (F_run b) s = s\<lparr>run := b\<rparr>"
| "assign (F_progress n) s = s\<lparr>progress := n\<rparr>"
| "assign (F_info t) s = s\<lparr>info := t\<rparr>"
| "assign (F_complete b) s = s\<lparr>complete := b\<rparr>"
| "assign (F_error b) s = s\<lparr>error := b\<rparr>"

definition spread :: "DownloadStatus \<Rightarrow> status_field list \<Rightarrow> DownloadStatus" where
  "spread s fs = fold assign fs s"

definition pushDownloadStatus :: "status_field list \<Rightarrow> Update \<Rightarrow> Update" where
  "pushDownloadStatus fs u = downloadStatus_next (spread (downloadStatus u) fs) u"

subsection \<open>checkVersion (lines 83-110)\<close>

datatype fetch_outcome = FetchRejected thrown | FetchJson "release option"

text \<open>
  The answers \<^verbatim>\<open>checkVersion\<close> awaits: the clock at line 86, the stored \<^verbatim>\<open>sha\<close> and
  \<^verbatim>\<open>releaseLink\<close> (line 94), the fetched document or the rejection of
  \<^verbatim>\<open>fetch(...).json()\<close> (line 96; \<open>FetchJson None\<close> is a falsy document), and the clock at
  line 107.  The read of the extension's storage is taken to succeed; a key that was never
  stored reads as the empty string, which the code cannot tell from \<^verbatim>\<open>undefined\<close>.
\<close>

record cv_env =
  clock_before :: int
  stored_sha :: string
  stored_releaseLink :: string
  fetched :: fetch_outcome
  clock_after :: int

definition githubDownloadUrl :: string where
  "githubDownloadUrl = ''https://api.github.com/repos/ehtagtranslation/Database/releases/latest''"

text \<open>The test of lines 88-89: the rate limit answers from the cache.\<close>

definition rate_limited :: "cv_env \<Rightarrow> Update \<Rightarrow> bool" where
  "rate_limited env u \<longleftrightarrow>
     clock_before env - timestamp (lastCheckData u) \<le> 1000 * 60
     \<and> githubRelease (lastCheckData u) \<noteq> None"

text \<open>The test \<^verbatim>\<open>info && info.target_commitish\<close> of line 98: the document and its commit
  identifier when both are truthy.\<close>

fun commitish_of :: "release option \<Rightarrow> (release \<times> string) option" where
  "commitish_of None = None"
| "commitish_of (Some r) =
     (case target_commitish r of
        None \<Rightarrow> None
      | Some c \<Rightarrow> if c = [] then None else Some (r, c))"

declare commitish_of.simps [simp del]

definition checkVersion ::
  "bool \<Rightarrow> cv_env \<Rightarrow> Update \<Rightarrow> ReleaseCheckData option outcome \<times> Update" where
  "checkVersion force env u =
     (if \<not> force \<and> rate_limited env u then (Returned (Some (lastCheckData u)), u)
      else
        let u1 = emit (Fetch githubDownloadUrl) (emit StorageGet u) in
        case fetched env of
          FetchRejected e \<Rightarrow> (Thrown e, u1)
        | FetchJson doc \<Rightarrow>
            (case commitish_of doc of
               None \<Rightarrow> (Returned None, u1)
             | Some (r, c) \<Rightarrow>
                 let d = \<lparr>old = stored_sha env, oldLink = stored_releaseLink env, new = c,
                          newLink = html_url r, timestamp = clock_after env,
                          githubRelease = Some r\<rparr>
                 in (Returned (Some d), u1\<lparr>lastCheckData := d\<rparr>)))"

subsection \<open>Double-precision arithmetic of the progress handler\<close>

text \<open>
  \<^verbatim>\<open>event.loaded / event.total * 100\<close> is computed in IEEE 754 binary64, rounding to
  nearest with ties to even after each operation.  \<open>to_double\<close> is that rounding on the
  rationals, for values in the normal range (which byte counts and their quotients are):
  \<open>binade x\<close> is the exponent \<open>e\<close> with \<open>2\<^sup>e \<le> x < 2\<^sup>e\<^sup>+\<^sup>1\<close>, and the 53-bit significand is
  rounded at \<open>2\<^sup>e\<^sup>-\<^sup>5\<^sup>2\<close>.
\<close>

definition binade :: "rat \<Rightarrow> int" where
  "binade x =
     (let (a, b) = quotient_of x; d = bitlen a - bitlen b
      in if 2 powi d \<le> x then d else d - 1)"

definition round_half_even :: "rat \<Rightarrow> int" where
  "round_half_even m =
     (let f = \<lfloor>m\<rfloor>; r = m - of_int f
      in if r < 1 / 2 then f else if 1 / 2 < r then f + 1 else if even f then f else f + 1)"

definition to_double :: "rat \<Rightarrow> rat" where
  "to_double x =
     (if x = 0 then 0
      else let ulp = 2 powi (binade \<bar>x\<bar> - 52)
           in of_int (round_half_even (x / ulp)) * ulp)"

text \<open>A byte count as a number, and the division and multiplication of numbers.\<close>

definition js_number :: "nat \<Rightarrow> rat" where
  "js_number n = to_double (of_nat n)"

definition js_div :: "rat \<Rightarrow> rat \<Rightarrow> rat" where
  "js_div a b = to_double (a / b)"

definition js_mul :: "rat \<Rightarrow> rat \<Rightarrow> rat" where
  "js_mul a b = to_double (a * b)"

text \<open>
  \<^verbatim>\<open>Math.floor((event.loaded / event.total) * 100)\<close> (line 157).  A division by zero gives
  \<^verbatim>\<open>NaN\<close> or \<^verbatim>\<open>Infinity\<close>, which multiplication and \<^verbatim>\<open>Math.floor\<close> pass on.
\<close>

definition js_percent :: "nat \<Rightarrow> nat \<Rightarrow> number" where
  "js_percent l t =
     (if js_number t = 0 then (if js_number l = 0 then NaN else Infinity)
      else Num (nat \<lfloor>js_mul (js_div (js_number l) (js_number t)) 100\<rfloor>))"

subsection \<open>download (lines 112-166)\<close>

record ProgressEvent =
  lengthComputable :: bool
  loaded :: nat
  total :: nat

text \<open>
  The events the transfer delivers to the three handlers.  \<open>OnLoad None\<close> is a load whose
  \<^verbatim>\<open>xhr.response\<close> cannot be read (the read throws inside the \<^verbatim>\<open>try\<close> of line 139).
\<close>

datatype xhr_event = OnProgress ProgressEvent | OnLoad "string option" | OnError

text \<open>
  \<^verbatim>\<open>resolve\<close> and \<^verbatim>\<open>reject\<close> of the promise of line 113: the first call settles it, later
  calls change nothing, and a promise nobody settles stays \<open>Pending\<close>.
\<close>

fun resolve :: "'a \<Rightarrow> 'a outcome \<Rightarrow> 'a outcome" where
  "resolve v Pending = Returned v"
| "resolve v p = p"

fun reject :: "thrown \<Rightarrow> 'a outcome \<Rightarrow> 'a outcome" where
  "reject e Pending = Thrown e"
| "reject e p = p"

type_synonym download_result = "release \<times> string"

definition xhr_onload ::
  "release \<Rightarrow> string option \<Rightarrow> download_result outcome \<times> Update \<Rightarrow> download_result outcome \<times> Update" where
  "xhr_onload rel response pu =
     (case pu of (p, u) \<Rightarrow>
        (case response of
           Some db \<Rightarrow>
             (resolve (rel, db) p,
              (badgeLoading_set ''100'' ''#4A90E2'' (Some 1)
                 (pushDownloadStatus [F_info msg_download_complete, F_progress (Num 100)] u))
              \<lparr>loadLock := False\<rparr>)
         | None \<Rightarrow>
             (reject DataParseFailed p,
              (badgeLoading_set ''ERR'' ''#C80000'' None u)\<lparr>loadLock := False\<rparr>)))"

definition xhr_onerror ::
  "download_result outcome \<times> Update \<Rightarrow> download_result outcome \<times> Update" where
  "xhr_onerror pu =
     (case pu of (p, u) \<Rightarrow>
        (reject ErrorEvent p, badgeLoading_set ''ERR'' ''#C80000'' None (u\<lparr>loadLock := False\<rparr>)))"

definition xhr_onprogress ::
  "ProgressEvent \<Rightarrow> download_result outcome \<times> Update \<Rightarrow> download_result outcome \<times> Update" where
  "xhr_onprogress event pu =
     (case pu of (p, u) \<Rightarrow>
        if lengthComputable event then
          let percent = js_percent (loaded event) (total event)
          in (p, badgeLoading_set (number_toString percent) ''#4A90E2'' (Some 1)
                   (pushDownloadStatus
                      [F_info (number_toString percent @ ''%''), F_progress percent] u))
        else (p, u))"

fun dispatch ::
  "release \<Rightarrow> xhr_event \<Rightarrow> download_result outcome \<times> Update \<Rightarrow> download_result outcome \<times> Update" where
  "dispatch rel (OnProgress event) pu = xhr_onprogress event pu"
| "dispatch rel (OnLoad response) pu = xhr_onload rel response pu"
| "dispatch rel OnError pu = xhr_onerror pu"

definition xhr_run ::
  "release \<Rightarrow> xhr_event list \<Rightarrow> download_result outcome \<times> Update \<Rightarrow> download_result outcome \<times> Update" where
  "xhr_run rel events pu = fold (dispatch rel) events pu"

text \<open>Lines 117-119: taking the lock and announcing the load.\<close>

definition download_begin :: "Update \<Rightarrow> Update" where
  "download_begin u =
     pushDownloadStatus [F_run True, F_info msg_loading]
       (badgeLoading_set [] ''#4A90E2'' (Some 2) (u\<lparr>loadLock := True\<rparr>))"

text \<open>The test of line 121: the release of the check and its asset list, if both are there.\<close>

fun release_assets :: "ReleaseCheckData option \<Rightarrow> (release \<times> asset list) option" where
  "release_assets None = None"
| "release_assets (Some checkData) =
     (case githubRelease checkData of
        None \<Rightarrow> None
      | Some rel \<Rightarrow> (case assets rel of None \<Rightarrow> None | Some as \<Rightarrow> Some (rel, as)))"

text \<open>Lines 127-128: the URL of the first asset named \<^verbatim>\<open>db.html.json.gz\<close>, or the empty string.\<close>

definition asset_url :: "asset list \<Rightarrow> string" where
  "asset_url as =
     (case find (\<lambda>i. name i = ''db.html.json.gz'') as of
        None \<Rightarrow> []
      | Some a \<Rightarrow> browser_download_url a)"

text \<open>Lines 135-164: the transfer, started with the handlers installed.\<close>

definition download_transfer ::
  "release \<Rightarrow> string \<Rightarrow> xhr_event list \<Rightarrow> Update \<Rightarrow> download_result outcome \<times> Update" where
  "download_transfer rel url events u =
     xhr_run rel events
       (Pending,
        badgeLoading_set ''0'' ''#4A90E2'' (Some 1)
          (pushDownloadStatus [F_info ''0%'', F_progress (Num 0)] (emit (XhrSend url) u)))"

text \<open>
  The executor of line 113 is an \<^verbatim>\<open>async\<close> function: what it returns and what it throws
  go to its own promise, which nobody reads.  The promise that \<^verbatim>\<open>download()\<close> hands to its
  caller is settled by \<^verbatim>\<open>resolve\<close> and \<^verbatim>\<open>reject\<close> only.
\<close>

definition download ::
  "cv_env \<Rightarrow> xhr_event list \<Rightarrow> Update \<Rightarrow> download_result outcome \<times> Update" where
  "download env events u =
     (if loadLock u then (Pending, u)
      else
        case checkVersion False env (download_begin u) of
          (Thrown e, u2) \<Rightarrow> (Pending, u2)
        | (Pending, u2) \<Rightarrow> (Pending, u2)
        | (Returned checkData, u2) \<Rightarrow>
            (case release_assets checkData of
               None \<Rightarrow> (Thrown VersionInfoUnavailable, u2\<lparr>loadLock := False\<rparr>)
             | Some (rel, as) \<Rightarrow>
                 if asset_url as = [] then (Thrown AssetUrlMissing, u2\<lparr>loadLock := False\<rparr>)
                 else download_transfer rel (asset_url as) events u2))"

subsection \<open>getTagDataEvent (lines 47-70)\<close>

text \<open>What \<^verbatim>\<open>tagDatabase.update\<close> answers: the new \<^verbatim>\<open>sha\<close> and \<^verbatim>\<open>releaseLink\<close>, or a failure.\<close>

datatype db_outcome = DbUpdated string string | DbFailed thrown

text \<open>\<^verbatim>\<open>(err && err.message) ? err.message : ...\<close> (line 68).\<close>

fun error_info :: "thrown \<Rightarrow> string" where
  "error_info (Error m) = (if m = [] then msg_update_failed else m)"
| "error_info (TypeError m) = (if m = [] then msg_update_failed else m)"
| "error_info ErrorEvent = msg_update_failed"

definition getTagDataEvent_catch :: "thrown \<Rightarrow> Update \<Rightarrow> Update" where
  "getTagDataEvent_catch err u =
     pushDownloadStatus [F_run False, F_error True, F_info (error_info err)]
       (emit (LogError err) u)"

text \<open>
  A property read on the \<^verbatim>\<open>BehaviorSubject\<close> object itself.  The class of rxjs has the
  accessor \<^verbatim>\<open>value\<close> and the methods below (from \<^verbatim>\<open>Subject\<close> and \<^verbatim>\<open>Observable\<close>); a
  \<^verbatim>\<open>DownloadStatus\<close> field such as \<^verbatim>\<open>run\<close> is not a property of the subject.
\<close>

datatype 'a js_property = Method | Held 'a | Undefined

definition BehaviorSubject_get :: "'a \<Rightarrow> string \<Rightarrow> 'a js_property" where
  "BehaviorSubject_get v prop =
     (if prop = ''value'' then Held v
      else if prop \<in> set [''next'', ''error'', ''complete'', ''subscribe'', ''unsubscribe'',
                ''asObservable'', ''getValue'', ''pipe'', ''forEach'', ''toPromise'']
      then Method
      else Undefined)"

text \<open>Truthiness of such a read: a function object and a status object are truthy.\<close>

fun truthy :: "'a js_property \<Rightarrow> bool" where
  "truthy Method = True"
| "truthy (Held v) = True"
| "truthy Undefined = False"

datatype phase = InGrace | Failed | Stuck

text \<open>Lines 49-61 and 66-69: up to the start of the grace period.\<close>

definition getTagDataEvent_until_sleep ::
  "cv_env \<Rightarrow> xhr_event list \<Rightarrow> db_outcome \<Rightarrow> Update \<Rightarrow> phase \<times> Update" where
  "getTagDataEvent_until_sleep env events answer u =
     (case download env events (initDownloadStatus u) of
        (Pending, u1) \<Rightarrow> (Stuck, u1)
      | (Thrown err, u1) \<Rightarrow> (Failed, getTagDataEvent_catch err u1)
      | (Returned (rel, db), u1) \<Rightarrow>
          let u2 = emit (DbUpdate db (html_url rel)) u1 in
          (case answer of
             DbFailed err \<Rightarrow> (Failed, getTagDataEvent_catch err u2)
           | DbUpdated sha link \<Rightarrow>
               let u3 = badgeLoading_set ''OK'' ''#00C801'' None u2;
                   u4 = pushDownloadStatus
                          [F_run True, F_info msg_update_complete, F_progress (Num 100),
                           F_complete True] u3;
                   u5 = u4\<lparr>lastCheckData := (lastCheckData u4)\<lparr>old := sha, oldLink := link\<rparr>\<rparr>
               in (InGrace, emit (Sleep 2500) u5)))"

text \<open>
  Lines 62-65, run when the timer fires.  The condition reads \<^verbatim>\<open>complete\<close> off
  \<^verbatim>\<open>this.downloadStatus\<close>, the subject, not off \<^verbatim>\<open>this.downloadStatus.value\<close>.
\<close>

definition getTagDataEvent_after_sleep :: "Update \<Rightarrow> Update" where
  "getTagDataEvent_after_sleep u =
     (if truthy (BehaviorSubject_get (downloadStatus u) ''complete'')
      then initDownloadStatus (badgeLoading_set [] ''#4A90E2'' None u)
      else u)"

text \<open>The whole call, with nothing else running during the grace period.\<close>

definition getTagDataEvent ::
  "cv_env \<Rightarrow> xhr_event list \<Rightarrow> db_outcome \<Rightarrow> Update \<Rightarrow> unit outcome \<times> Update" where
  "getTagDataEvent env events answer u =
     (case getTagDataEvent_until_sleep env events answer u of
        (Stuck, u1) \<Rightarrow> (Pending, u1)
      | (Failed, u1) \<Rightarrow> (Returned (), u1)
      | (InGrace, u1) \<Rightarrow> (Returned (), getTagDataEvent_after_sleep u1))"

subsection \<open>The auto-update listener (lines 36-43)\<close>

text \<open>
  Reading \<^verbatim>\<open>version.new\<close> when \<^verbatim>\<open>version\<close> is \<^verbatim>\<open>null\<close> throws a \<^verbatim>\<open>TypeError\<close>; the text of
  its message is the engine's.
\<close>

definition null_read :: thrown where
  "null_read = TypeError ''Cannot read properties of null''"

definition autoUpdate ::
  "cv_env \<Rightarrow> cv_env \<Rightarrow> xhr_event list \<Rightarrow> db_outcome \<Rightarrow> Update \<Rightarrow> bool outcome \<times> Update" where
  "autoUpdate env env' events answer u =
     (case checkVersion True env u of
        (Thrown e, u1) \<Rightarrow> (Thrown e, u1)
      | (Pending, u1) \<Rightarrow> (Pending, u1)
      | (Returned None, u1) \<Rightarrow> (Thrown null_read, u1)
      | (Returned (Some version), u1) \<Rightarrow>
          if new version \<noteq> [] \<and> new version \<noteq> old version then
            (case getTagDataEvent env' events answer u1 of
               (Returned _, u2) \<Rightarrow> (Returned True, u2)
             | (Thrown e, u2) \<Rightarrow> (Thrown e, u2)
             | (Pending, u2) \<Rightarrow> (Pending, u2))
          else (Returned False, u1))"

subsection \<open>Shapes of statuses and of transfers\<close>

text \<open>A status that reports neither completion nor failure.\<close>

definition unfinished :: "DownloadStatus \<Rightarrow> bool" where
  "unfinished s \<longleftrightarrow> \<not> complete s \<and> \<not> error s"

text \<open>Two statuses with the same three flags.\<close>

definition same_flags :: "DownloadStatus \<Rightarrow> DownloadStatus \<Rightarrow> bool" where
  "same_flags s s' \<longleftrightarrow> run s = run s' \<and> complete s = complete s' \<and> error s = error s'"

text \<open>
  What the three flags of a status published by one update look like: never completion
  and failure at once, failure only with \<^verbatim>\<open>run\<close> off, completion only with \<^verbatim>\<open>run\<close> on.
\<close>

definition coherent :: "DownloadStatus \<Rightarrow> bool" where
  "coherent s \<longleftrightarrow>
     \<not> (complete s \<and> error s) \<and> (error s \<longrightarrow> \<not> run s) \<and> (complete s \<longrightarrow> run s)"

text \<open>
  The events of one transfer of \<open>t\<close> bytes, of which \<open>l\<close> have been reported: every
  progress event with a known size reports the total \<open>t\<close> and a count between the last one
  and \<open>t\<close>, and the load or error event, if there is one, is the last event.
\<close>

fun transfer_events :: "nat \<Rightarrow> nat \<Rightarrow> xhr_event list \<Rightarrow> bool" where
  "transfer_events t l [] = True"
| "transfer_events t l (OnProgress event # events) =
     (if lengthComputable event
      then total event = t \<and> l \<le> loaded event \<and> loaded event \<le> t
           \<and> transfer_events t (loaded event) events
      else transfer_events t l events)"
| "transfer_events t l (OnLoad response # events) = (events = [])"
| "transfer_events t l (OnError # events) = (events = [])"

subsection \<open>Reading the log\<close>

text \<open>The URLs of the transfers started, and the statuses broadcast, in order.\<close>

fun transfers :: "effect list \<Rightarrow> string list" where
  "transfers [] = []"
| "transfers (XhrSend url # es) = url # transfers es"
| "transfers (e # es) = transfers es"

fun published :: "effect list \<Rightarrow> DownloadStatus list" where
  "published [] = []"
| "published (Broadcast s # es) = s # published es"
| "published (e # es) = published es"

text \<open>The statuses broadcast on the way from \<open>u\<close> to \<open>u'\<close>.\<close>

definition published_since :: "Update \<Rightarrow> Update \<Rightarrow> DownloadStatus list" where
  "published_since u u' = drop (length (published (effects u))) (published (effects u'))"

subsection \<open>Example inputs\<close>

text \<open>A release with the bundle among its assets, and the answers of some checks.\<close>

definition release_example :: release where
  "release_example =
     \<lparr>target_commitish = Some ''c0ffee'', html_url = ''https://example.org/release'',
      assets = Some [\<lparr>name = ''db.html.json.gz'',
                       browser_download_url = ''https://example.org/db.gz''\<rparr>]\<rparr>"

definition release_no_bundle :: release where
  "release_no_bundle =
     \<lparr>target_commitish = Some ''c0ffee'', html_url = ''https://example.org/release'',
      assets = Some [\<lparr>name = ''db.raw.json.gz'',
                       browser_download_url = ''https://example.org/raw.gz''\<rparr>]\<rparr>"

definition release_no_commitish :: release where
  "release_no_commitish =
     \<lparr>target_commitish = None, html_url = ''https://example.org/release'', assets = Some []\<rparr>"

text \<open>A check at 100000 ms that fetches \<open>release_example\<close>; the installed version is older.\<close>

definition env_fresh :: cv_env where
  "env_fresh =
     \<lparr>clock_before = 100000, stored_sha = ''beef'',
      stored_releaseLink = ''https://example.org/old'',
      fetched = FetchJson (Some release_example), clock_after = 100250\<rparr>"

text \<open>The same check when the installed version is already the remote one.\<close>

definition env_same :: cv_env where
  "env_same = env_fresh\<lparr>stored_sha := ''c0ffee''\<rparr>"

text \<open>A check 29750 ms later; the network is down by then.\<close>

definition env_soon :: cv_env where
  "env_soon =
     \<lparr>clock_before = 130000, stored_sha = ''beef'',
      stored_releaseLink = ''https://example.org/old'',
      fetched = FetchRejected (TypeError ''Failed to fetch''), clock_after = 130100\<rparr>"

text \<open>Checks whose document has no commit identifier, or no bundle.\<close>

definition env_no_commitish :: cv_env where
  "env_no_commitish = env_fresh\<lparr>fetched := FetchJson (Some release_no_commitish)\<rparr>"

definition env_no_bundle :: cv_env where
  "env_no_bundle = env_fresh\<lparr>fetched := FetchJson (Some release_no_bundle)\<rparr>"

text \<open>The coordinator after one successful forced check.\<close>

definition u_checked :: Update where
  "u_checked = snd (checkVersion True env_fresh new_Update)"

text \<open>A download started 29750 ms later, its transfer under way and no event delivered yet.\<close>

definition u_loading :: Update where
  "u_loading = snd (download env_soon [] u_checked)"

text \<open>
  An update that has succeeded and waits out its grace period, and a second update that
  was started meanwhile and has reached 40 percent of its transfer.
\<close>

definition db_answer :: db_outcome where
  "db_answer = DbUpdated ''c0ffee'' ''https://example.org/release''"

definition u_grace :: Update where
  "u_grace = snd (getTagDataEvent_until_sleep env_soon [OnLoad (Some ''blob'')] db_answer u_checked)"

text \<open>A transfer of 100 bytes reported at 29 and at 57 bytes, then loaded.\<close>

definition events_example :: "xhr_event list" where
  "events_example =
     [OnProgress \<lparr>lengthComputable = True, loaded = 29, total = 100\<rparr>,
      OnProgress \<lparr>lengthComputable = True, loaded = 57, total = 100\<rparr>,
      OnLoad (Some ''blob'')]"

definition u_overlap :: Update where
  "u_overlap =
     snd (getTagDataEvent_until_sleep env_soon
            [OnProgress \<lparr>lengthComputable = True, loaded = 40, total = 100\<rparr>] db_answer u_grace)"

section \<open>Basic facts\<close>

lemma emit_simps [simp]:
  "effects (emit e u) = effects u @ [e]"
  "loadLock (emit e u) = loadLock u"
  "downloadStatus (emit e u) = downloadStatus u"
  "lastCheckData (emit e u) = lastCheckData u"
  by (simp_all add: emit_def)

lemma downloadStatus_next_simps [simp]:
  "effects (downloadStatus_next v u) = effects u @ [Broadcast v]"
  "loadLock (downloadStatus_next v u) = loadLock u"
  "downloadStatus (downloadStatus_next v u) = v"
  "lastCheckData (downloadStatus_next v u) = lastCheckData u"
  by (simp_all add: downloadStatus_next_def)

lemma badgeLoading_set_simps [simp]:
  "effects (badgeLoading_set t c p u) = effects u @ [BadgeSet t c p]"
  "loadLock (badgeLoading_set t c p u) = loadLock u"
  "downloadStatus (badgeLoading_set t c p u) = downloadStatus u"
  "lastCheckData (badgeLoading_set t c p u) = lastCheckData u"
  by (simp_all add: badgeLoading_set_def)

lemma pushDownloadStatus_simps [simp]:
  "effects (pushDownloadStatus fs u) = effects u @ [Broadcast (spread (downloadStatus u) fs)]"
  "loadLock (pushDownloadStatus fs u) = loadLock u"
  "downloadStatus (pushDownloadStatus fs u) = spread (downloadStatus u) fs"
  "lastCheckData (pushDownloadStatus fs u) = lastCheckData u"
  by (simp_all add: pushDownloadStatus_def)

lemma initDownloadStatus_simps [simp]:
  "effects (initDownloadStatus u) = effects u @ [Broadcast defaultStatus]"
  "loadLock (initDownloadStatus u) = loadLock u"
  "downloadStatus (initDownloadStatus u) = defaultStatus"
  "lastCheckData (initDownloadStatus u) = lastCheckData u"
  by (simp_all add: initDownloadStatus_def)

lemma download_begin_simps [simp]:
  "effects (download_begin u) =
     effects u @ [BadgeSet [] ''#4A90E2'' (Some 2),
                  Broadcast (spread (downloadStatus u) [F_run True, F_info msg_loading])]"
  "loadLock (download_begin u) = True"
  "downloadStatus (download_begin u) = spread (downloadStatus u) [F_run True, F_info msg_loading]"
  "lastCheckData (download_begin u) = lastCheckData u"
  by (simp_all add: download_begin_def)

text \<open>The three ways \<open>checkVersion\<close> ends when it goes to the network, and the cached one.\<close>

lemma checkVersion_cached:
  "\<not> force \<Longrightarrow> rate_limited env u \<Longrightarrow>
   checkVersion force env u = (Returned (Some (lastCheckData u)), u)"
  by (simp add: checkVersion_def)

lemma checkVersion_rejected:
  "force \<or> \<not> rate_limited env u \<Longrightarrow> fetched env = FetchRejected e \<Longrightarrow>
   checkVersion force env u = (Thrown e, emit (Fetch githubDownloadUrl) (emit StorageGet u))"
  by (auto simp add: checkVersion_def Let_def)

lemma checkVersion_null:
  "force \<or> \<not> rate_limited env u \<Longrightarrow> fetched env = FetchJson doc \<Longrightarrow>
   commitish_of doc = None \<Longrightarrow>
   checkVersion force env u = (Returned None, emit (Fetch githubDownloadUrl) (emit StorageGet u))"
  by (auto simp add: checkVersion_def Let_def)

lemma checkVersion_fetched:
  "force \<or> \<not> rate_limited env u \<Longrightarrow> fetched env = FetchJson doc \<Longrightarrow>
   commitish_of doc = Some (r, c) \<Longrightarrow>
   checkVersion force env u =
     (Returned (Some \<lparr>old = stored_sha env, oldLink = stored_releaseLink env, new = c,
                       newLink = html_url r, timestamp = clock_after env,
                       githubRelease = Some r\<rparr>),
      (emit (Fetch githubDownloadUrl) (emit StorageGet u))
        \<lparr>lastCheckData := \<lparr>old = stored_sha env, oldLink = stored_releaseLink env, new = c,
                             newLink = html_url r, timestamp = clock_after env,
                             githubRelease = Some r\<rparr>\<rparr>)"
  by (auto simp add: checkVersion_def Let_def)

lemma checkVersion_not_Pending: "fst (checkVersion force env u) \<noteq> Pending"
  by (auto simp add: checkVersion_def Let_def split: fetch_outcome.splits option.splits)

lemma checkVersion_frame:
  "loadLock (snd (checkVersion force env u)) = loadLock u"
  "downloadStatus (snd (checkVersion force env u)) = downloadStatus u"
  by (auto simp add: checkVersion_def Let_def split: fetch_outcome.splits option.splits)

lemma checkVersion_effects:
  "effects (snd (checkVersion force env u)) =
     effects u @ (if \<not> force \<and> rate_limited env u then [] else [StorageGet, Fetch githubDownloadUrl])"
  by (auto simp add: checkVersion_def Let_def split: fetch_outcome.splits option.splits)

lemma commitish_of_None_iff:
  "commitish_of doc = None \<longleftrightarrow>
     doc = None \<or> target_commitish (the doc) = None \<or> target_commitish (the doc) = Some []"
  by (cases doc) (auto simp add: commitish_of.simps split: option.splits)

lemma commitish_of_examples [simp]:
  "commitish_of (Some release_example) = Some (release_example, ''c0ffee'')"
  "commitish_of (Some release_no_bundle) = Some (release_no_bundle, ''c0ffee'')"
  "commitish_of (Some release_no_commitish) = None"
  by (simp_all add: commitish_of.simps release_example_def release_no_bundle_def
      release_no_commitish_def)

lemma env_examples [simp]:
  "fetched env_fresh = FetchJson (Some release_example)"
  "fetched env_same = FetchJson (Some release_example)"
  "fetched env_no_commitish = FetchJson (Some release_no_commitish)"
  "fetched env_no_bundle = FetchJson (Some release_no_bundle)"
  "fetched env_soon = FetchRejected (TypeError ''Failed to fetch'')"
  "clock_before env_soon = 130000"
  "clock_before env_fresh = 100000"
  "clock_after env_fresh = 100250"
  "stored_sha env_fresh = ''beef''"
  "stored_releaseLink env_fresh = ''https://example.org/old''"
  "stored_sha env_same = ''c0ffee''"
  by (simp_all add: env_fresh_def env_same_def env_no_commitish_def env_no_bundle_def env_soon_def)

lemma u_checked_eq:
  "u_checked =
     (emit (Fetch githubDownloadUrl) (emit StorageGet new_Update))
       \<lparr>lastCheckData :=
          \<lparr>old = ''beef'', oldLink = ''https://example.org/old'', new = ''c0ffee'',
           newLink = ''https://example.org/release'', timestamp = 100250,
           githubRelease = Some release_example\<rparr>\<rparr>"
proof -
  have "html_url release_example = ''https://example.org/release''"
    by (simp add: release_example_def)
  then show ?thesis
    unfolding u_checked_def
    by (simp add: checkVersion_fetched [where doc = "Some release_example"])
qed

lemma u_checked_simps [simp]:
  "lastCheckData u_checked =
     \<lparr>old = ''beef'', oldLink = ''https://example.org/old'', new = ''c0ffee'',
      newLink = ''https://example.org/release'', timestamp = 100250,
      githubRelease = Some release_example\<rparr>"
  "loadLock u_checked = False"
  "downloadStatus u_checked = defaultStatus"
  "effects u_checked = [Broadcast defaultStatus, StorageGet, Fetch githubDownloadUrl]"
  by (simp_all add: u_checked_eq new_Update_def)

section \<open>The version check\<close>

text \<open>
  Claim C4.  A call \<^verbatim>\<open>checkVersion(false)\<close> made less than 60000 ms after the timestamp of
  the last successful check, while the cached remote release is there, returns the cached
  record and leaves the coordinator as it was: nothing is fetched, nothing is logged.
\<close>

theorem checkVersion_rate_limited:
  assumes "\<not> force"
    and "clock_before env - timestamp (lastCheckData u) < 60000"
    and "githubRelease (lastCheckData u) \<noteq> None"
  shows "checkVersion force env u = (Returned (Some (lastCheckData u)), u)
       \<and> effects (snd (checkVersion force env u)) = effects u"
  using assms by (simp add: checkVersion_cached rate_limited_def)

theorem checkVersion_rate_limited_witness:
  "clock_before env_soon - timestamp (lastCheckData u_checked) < 60000
   \<and> githubRelease (lastCheckData u_checked) \<noteq> None
   \<and> checkVersion False env_soon u_checked = (Returned (Some (lastCheckData u_checked)), u_checked)
   \<and> effects (snd (checkVersion False env_soon u_checked)) = effects u_checked"
  using checkVersion_rate_limited [of False env_soon u_checked] by simp

text \<open>
  When the fetched document has no \<^verbatim>\<open>target_commitish\<close>, line 99 returns \<^verbatim>\<open>null\<close>: the
  call does not fail, with \<open>VersionInfoUnavailable\<close> or with anything else.
\<close>

theorem checkVersion_missing_commitish_counterexample:
  "fst (checkVersion True env_no_commitish new_Update) = Returned None
   \<and> fst (checkVersion True env_no_commitish new_Update) \<noteq> Thrown VersionInfoUnavailable"
  by (simp add: checkVersion_null [where doc = "Some release_no_commitish"])

text \<open>
  Claim C5, as the code has it.  Whenever \<^verbatim>\<open>checkVersion\<close> goes to the network and the
  fetched document lacks the commit identifier (the document is falsy, or its
  \<^verbatim>\<open>target_commitish\<close> is absent or empty), the call returns \<^verbatim>\<open>null\<close> and every field of
  \<^verbatim>\<open>lastCheckData\<close>, the timestamp included, is as before.
\<close>

theorem checkVersion_missing_commitish:
  assumes "force \<or> \<not> rate_limited env u"
    and "fetched env = FetchJson doc"
    and "commitish_of doc = None"
  shows "fst (checkVersion force env u) = Returned None
       \<and> lastCheckData (snd (checkVersion force env u)) = lastCheckData u"
  using assms by (simp add: checkVersion_null)

theorem checkVersion_missing_commitish_witness:
  "fetched env_no_commitish = FetchJson (Some release_no_commitish)
   \<and> commitish_of (Some release_no_commitish) = None
   \<and> fst (checkVersion True env_no_commitish u_checked) = Returned None
   \<and> lastCheckData (snd (checkVersion True env_no_commitish u_checked)) = lastCheckData u_checked"
  using checkVersion_missing_commitish [of True env_no_commitish u_checked "Some release_no_commitish"]
  by simp

section \<open>The auto-update listener\<close>

text \<open>
  Claim C10.  When the document fetched by the forced check lacks \<^verbatim>\<open>target_commitish\<close>,
  \<^verbatim>\<open>checkVersion\<close> returns \<^verbatim>\<open>null\<close> (it neither yields a record nor throws), and the
  listener, reading \<^verbatim>\<open>version.new\<close> off that \<^verbatim>\<open>null\<close>, ends with a \<^verbatim>\<open>TypeError\<close> instead of
  returning \<^verbatim>\<open>false\<close>.
\<close>

theorem autoUpdate_null_check:
  assumes "fetched env = FetchJson doc"
    and "commitish_of doc = None"
  shows "fst (checkVersion True env u) = Returned None
       \<and> fst (autoUpdate env env' events answer u) = Thrown null_read
       \<and> fst (autoUpdate env env' events answer u) \<noteq> Returned False"
  using assms by (simp add: autoUpdate_def checkVersion_null)

theorem autoUpdate_null_check_witness:
  "fetched env_no_commitish = FetchJson (Some release_no_commitish)
   \<and> commitish_of (Some release_no_commitish) = None
   \<and> fst (checkVersion True env_no_commitish new_Update) = Returned None
   \<and> fst (autoUpdate env_no_commitish env_soon [] (DbFailed ErrorEvent) new_Update) = Thrown null_read
   \<and> fst (autoUpdate env_no_commitish env_soon [] (DbFailed ErrorEvent) new_Update) \<noteq> Returned False"
  using autoUpdate_null_check [of env_no_commitish "Some release_no_commitish" new_Update
      env_soon "[]" "DbFailed ErrorEvent"]
  by simp

section \<open>Running an update on request of the auto-update listener\<close>

lemma transfers_append [simp]: "transfers (xs @ ys) = transfers xs @ transfers ys"
  by (induction xs rule: transfers.induct) simp_all

lemma published_append [simp]: "published (xs @ ys) = published xs @ published ys"
  by (induction xs rule: published.induct) simp_all

lemma getTagDataEvent_not_Thrown: "fst (getTagDataEvent env events answer u) \<noteq> Thrown e"
  by (simp add: getTagDataEvent_def split: prod.splits phase.splits)

lemma getTagDataEvent_cases:
  "getTagDataEvent env events answer u = (r, u') \<Longrightarrow> r = Returned () \<or> r = Pending"
  by (auto simp add: getTagDataEvent_def split: prod.splits phase.splits)

text \<open>
  What the listener does with a check that yields a record \<open>version\<close>: if \<^verbatim>\<open>version.new\<close>
  is non-empty and differs from \<^verbatim>\<open>version.old\<close> it goes on as \<^verbatim>\<open>getTagDataEvent\<close> does from
  the state the check left, and returns \<^verbatim>\<open>true\<close> if that ends; otherwise it returns
  \<^verbatim>\<open>false\<close> and the coordinator is as the check left it.
\<close>

lemma autoUpdate_with_record:
  assumes "checkVersion True env u = (Returned (Some version), u1)"
  shows "(fst (autoUpdate env env' events answer u) = Returned True \<longleftrightarrow>
            (new version \<noteq> [] \<and> new version \<noteq> old version)
            \<and> fst (getTagDataEvent env' events answer u1) = Returned ())
       \<and> (new version \<noteq> [] \<and> new version \<noteq> old version \<longrightarrow>
            snd (autoUpdate env env' events answer u) = snd (getTagDataEvent env' events answer u1))
       \<and> (fst (autoUpdate env env' events answer u) = Returned False \<longleftrightarrow>
            \<not> (new version \<noteq> [] \<and> new version \<noteq> old version))
       \<and> (\<not> (new version \<noteq> [] \<and> new version \<noteq> old version) \<longrightarrow>
            snd (autoUpdate env env' events answer u) = u1
            \<and> loadLock u1 = loadLock u \<and> downloadStatus u1 = downloadStatus u
            \<and> effects u1 = effects u @ [StorageGet, Fetch githubDownloadUrl]
            \<and> transfers (effects u1) = transfers (effects u))"
proof -
  obtain r u2 where g: "getTagDataEvent env' events answer u1 = (r, u2)"
    by (cases "getTagDataEvent env' events answer u1")
  from getTagDataEvent_cases [OF g] have r: "r = Returned () \<or> r = Pending" .
  have u1: "u1 = snd (checkVersion True env u)"
    using assms by simp
  have frame: "loadLock u1 = loadLock u" "downloadStatus u1 = downloadStatus u"
    "effects u1 = effects u @ [StorageGet, Fetch githubDownloadUrl]"
    unfolding u1 by (simp_all add: checkVersion_frame checkVersion_effects)
  show ?thesis
    using assms g r frame by (auto simp add: autoUpdate_def)
qed

lemma env_same_check:
  "checkVersion True env_same new_Update =
     (Returned (Some \<lparr>old = ''c0ffee'', oldLink = ''https://example.org/old'', new = ''c0ffee'',
                       newLink = ''https://example.org/release'', timestamp = 100250,
                       githubRelease = Some release_example\<rparr>),
      snd (checkVersion True env_same new_Update))"
  by code_simp

lemma env_fresh_check:
  "checkVersion True env_fresh new_Update = (Returned (Some (lastCheckData u_checked)), u_checked)"
  by code_simp

lemma env_fresh_update:
  "fst (getTagDataEvent env_soon [OnLoad (Some ''blob'')] db_answer u_checked) = Returned ()"
  by code_simp

lemma autoUpdate_with_record_examples:
  "fst (autoUpdate env_same env_soon [OnLoad (Some ''blob'')] db_answer new_Update) = Returned False
   \<and> transfers (effects (snd (autoUpdate env_same env_soon [OnLoad (Some ''blob'')] db_answer new_Update))) = []
   \<and> fst (autoUpdate env_fresh env_soon [OnLoad (Some ''blob'')] db_answer new_Update) = Returned True"
  using autoUpdate_with_record [OF env_same_check, of env_soon "[OnLoad (Some ''blob'')]" db_answer]
    autoUpdate_with_record [OF env_fresh_check, of env_soon "[OnLoad (Some ''blob'')]" db_answer]
    env_fresh_update
  by (simp add: new_Update_def)

section \<open>The download\<close>

lemma rate_limited_download_begin [simp]:
  "rate_limited env (download_begin u) = rate_limited env u"
  by (simp add: rate_limited_def)

lemma download_locked: "loadLock u \<Longrightarrow> download env events u = (Pending, u)"
  by (simp add: download_def)

lemma download_check_thrown:
  "\<not> loadLock u \<Longrightarrow> checkVersion False env (download_begin u) = (Thrown e, u2) \<Longrightarrow>
   download env events u = (Pending, u2)"
  by (simp add: download_def)

lemma download_checked:
  "\<not> loadLock u \<Longrightarrow> checkVersion False env (download_begin u) = (Returned checkData, u2) \<Longrightarrow>
   download env events u =
     (case release_assets checkData of
        None \<Rightarrow> (Thrown VersionInfoUnavailable, u2\<lparr>loadLock := False\<rparr>)
      | Some (rel, as) \<Rightarrow>
          if asset_url as = [] then (Thrown AssetUrlMissing, u2\<lparr>loadLock := False\<rparr>)
          else download_transfer rel (asset_url as) events u2)"
  by (simp add: download_def)

lemma asset_url_empty_iff:
  "asset_url as = [] \<longleftrightarrow>
     find (\<lambda>i. name i = ''db.html.json.gz'') as = None
     \<or> (\<exists>a. find (\<lambda>i. name i = ''db.html.json.gz'') as = Some a \<and> browser_download_url a = [])"
  by (simp add: asset_url_def split: option.splits)

text \<open>
  Claim C8.  Once \<^verbatim>\<open>download()\<close> holds the lock and the check has given a release with an
  asset list, the asset is the first entry named exactly \<^verbatim>\<open>db.html.json.gz\<close>.  If there is
  no such entry or its URL is empty, the call is rejected with \<open>AssetUrlMissing\<close>, the lock
  is free again and no transfer has been started; if there is one with a URL, the transfer
  of that URL is what the call goes on with.
\<close>

theorem download_asset_url_missing:
  assumes "\<not> loadLock u"
    and "checkVersion False env (download_begin u) = (Returned checkData, u2)"
    and "release_assets checkData = Some (rel, as)"
  shows "(find (\<lambda>i. name i = ''db.html.json.gz'') as = None
          \<or> (\<exists>a. find (\<lambda>i. name i = ''db.html.json.gz'') as = Some a \<and> browser_download_url a = [])
          \<longrightarrow> download env events u = (Thrown AssetUrlMissing, u2\<lparr>loadLock := False\<rparr>)
              \<and> \<not> loadLock (snd (download env events u))
              \<and> transfers (effects (snd (download env events u))) = transfers (effects u))
       \<and> (\<forall>a. find (\<lambda>i. name i = ''db.html.json.gz'') as = Some a \<and> browser_download_url a \<noteq> []
          \<longrightarrow> download env events u = download_transfer rel (browser_download_url a) events u2)"
proof -
  have u2: "u2 = snd (checkVersion False env (download_begin u))"
    using assms(2) by simp
  have "transfers (effects u2) = transfers (effects u)"
    unfolding u2 by (simp add: checkVersion_effects)
  moreover have "\<And>a. find (\<lambda>i. name i = ''db.html.json.gz'') as = Some a \<Longrightarrow>
     asset_url as = browser_download_url a"
    by (simp add: asset_url_def)
  ultimately show ?thesis
    using assms by (auto simp add: download_checked asset_url_def)
qed

lemma new_Update_simps [simp]:
  "lastCheckData new_Update = initialCheckData"
  "downloadStatus new_Update = defaultStatus"
  "loadLock new_Update = False"
  "effects new_Update = [Broadcast defaultStatus]"
  by (simp_all add: new_Update_def)

lemma env_no_bundle_check:
  "checkVersion False env_no_bundle (download_begin new_Update) =
     (Returned (Some \<lparr>old = ''beef'', oldLink = ''https://example.org/old'', new = ''c0ffee'',
                       newLink = ''https://example.org/release'', timestamp = 100250,
                       githubRelease = Some release_no_bundle\<rparr>),
      snd (checkVersion False env_no_bundle (download_begin new_Update)))"
  by code_simp

lemma release_no_bundle_assets:
  "release_assets (Some \<lparr>old = ''beef'', oldLink = ''https://example.org/old'', new = ''c0ffee'',
                       newLink = ''https://example.org/release'', timestamp = 100250,
                       githubRelease = Some release_no_bundle\<rparr>) =
     Some (release_no_bundle, [\<lparr>name = ''db.raw.json.gz'',
                                browser_download_url = ''https://example.org/raw.gz''\<rparr>])"
  by code_simp

theorem download_asset_url_missing_witness:
  "\<not> loadLock new_Update
   \<and> fst (download env_no_bundle [OnLoad (Some ''blob'')] new_Update) = Thrown AssetUrlMissing
   \<and> \<not> loadLock (snd (download env_no_bundle [OnLoad (Some ''blob'')] new_Update))
   \<and> transfers (effects (snd (download env_no_bundle [OnLoad (Some ''blob'')] new_Update))) = []"
  using download_asset_url_missing [OF _ env_no_bundle_check release_no_bundle_assets,
      of "[OnLoad (Some ''blob'')]"]
  by (simp add: checkVersion_effects)

text \<open>
  Claim C1 does not hold of the code.  A call of \<^verbatim>\<open>download()\<close> that finds the lock taken
  leaves the executor at line 115 with \<^verbatim>\<open>return false\<close>: neither \<^verbatim>\<open>resolve\<close> nor \<^verbatim>\<open>reject\<close>
  is called and no handler is installed, so the promise handed to the caller stays
  pending whatever happens afterwards, and the coordinator is unchanged.
\<close>

theorem download_while_locked:
  assumes "loadLock u"
  shows "download env events u = (Pending, u)"
  using assms by (simp add: download_def)

lemma u_loading_locked: "loadLock u_loading"
  by code_simp

theorem download_while_locked_witness:
  "loadLock u_loading
   \<and> download env_soon [OnLoad (Some ''blob'')] u_loading = (Pending, u_loading)"
  using download_while_locked [OF u_loading_locked, of env_soon "[OnLoad (Some ''blob'')]"]
    u_loading_locked
  by simp

text \<open>
  Claim C2 does not hold of the code.  When the version check inside \<^verbatim>\<open>download()\<close> goes to
  the network and the fetch is rejected, the exception leaves the \<^verbatim>\<open>async\<close> executor at
  line 120: the caller's promise is never settled and \<^verbatim>\<open>loadLock\<close> stays \<^verbatim>\<open>true\<close>.
\<close>

theorem download_check_throws:
  assumes "\<not> loadLock u"
    and "\<not> rate_limited env u"
    and "fetched env = FetchRejected e"
  shows "fst (download env events u) = Pending \<and> loadLock (snd (download env events u))"
  using assms by (simp add: download_check_thrown checkVersion_rejected)

theorem download_check_throws_witness:
  "\<not> loadLock new_Update \<and> \<not> rate_limited env_soon new_Update
   \<and> fst (download env_soon [] new_Update) = Pending
   \<and> loadLock (snd (download env_soon [] new_Update))"
  using download_check_throws [of new_Update env_soon "TypeError ''Failed to fetch''" "[]"]
  by (simp add: rate_limited_def initialCheckData_def)

subsection \<open>The auto-update listener during a download\<close>

lemma getTagDataEvent_locked:
  "loadLock u \<Longrightarrow>
   getTagDataEvent env events answer u = (Pending, initDownloadStatus u)"
  by (simp add: getTagDataEvent_def getTagDataEvent_until_sleep_def download_locked)

text \<open>
  Claim C7 does not hold of the code.  When the request arrives while a download holds the
  lock and the forced check reports a new version that differs from the installed one, the
  listener awaits \<^verbatim>\<open>getTagDataEvent\<close>, which resets the status (line 49) and then waits for a
  \<^verbatim>\<open>download()\<close> that left at line 115: the listener never returns \<^verbatim>\<open>true\<close>, no transfer is
  started for it, the status of the download under way has been replaced by the idle one,
  and the lock is still held.
\<close>

theorem autoUpdate_while_locked:
  assumes "loadLock u"
    and "checkVersion True env u = (Returned (Some version), u1)"
    and "new version \<noteq> []" and "new version \<noteq> old version"
  shows "autoUpdate env env' events answer u = (Pending, initDownloadStatus u1)
       \<and> fst (autoUpdate env env' events answer u) \<noteq> Returned True
       \<and> transfers (effects (snd (autoUpdate env env' events answer u))) = transfers (effects u)
       \<and> downloadStatus (snd (autoUpdate env env' events answer u)) = defaultStatus
       \<and> loadLock (snd (autoUpdate env env' events answer u))"
proof -
  have u1: "u1 = snd (checkVersion True env u)"
    using assms(2) by simp
  have lock: "loadLock u1"
    unfolding u1 using assms(1) by (simp add: checkVersion_frame)
  have eff: "transfers (effects u1) = transfers (effects u)"
    unfolding u1 by (simp add: checkVersion_effects)
  have "autoUpdate env env' events answer u = (Pending, initDownloadStatus u1)"
    using assms(2-4) by (simp add: autoUpdate_def getTagDataEvent_locked [OF lock])
  then show ?thesis
    using lock eff by simp
qed

lemma u_loading_check:
  "checkVersion True env_fresh u_loading =
     (Returned (Some \<lparr>old = ''beef'', oldLink = ''https://example.org/old'', new = ''c0ffee'',
                       newLink = ''https://example.org/release'', timestamp = 100250,
                       githubRelease = Some release_example\<rparr>),
      snd (checkVersion True env_fresh u_loading))"
  by code_simp

lemma u_loading_transfers: "transfers (effects u_loading) = [''https://example.org/db.gz'']"
  by code_simp

theorem autoUpdate_while_locked_witness:
  "loadLock u_loading
   \<and> fst (autoUpdate env_fresh env_soon events_example db_answer u_loading) = Pending
   \<and> fst (autoUpdate env_fresh env_soon events_example db_answer u_loading) \<noteq> Returned True
   \<and> transfers (effects (snd (autoUpdate env_fresh env_soon events_example db_answer u_loading)))
       = [''https://example.org/db.gz'']
   \<and> downloadStatus (snd (autoUpdate env_fresh env_soon events_example db_answer u_loading))
       = defaultStatus"
  using autoUpdate_while_locked [OF u_loading_locked u_loading_check, of env_soon events_example db_answer]
    u_loading_locked u_loading_transfers
  by (simp add: checkVersion_effects)

section \<open>The reset after the grace period\<close>

text \<open>
  Claim C6 does not hold of the code.  The condition of line 62 reads the method
  \<^verbatim>\<open>complete\<close> of the subject, which is truthy, so when the timer fires the badge is
  cleared and the status is reset to idle whatever the status is by then, also that of an
  update started during the grace period.
\<close>

theorem grace_reset_unconditional:
  "downloadStatus (getTagDataEvent_after_sleep u) = defaultStatus
   \<and> effects (getTagDataEvent_after_sleep u) =
       effects u @ [BadgeSet [] ''#4A90E2'' None, Broadcast defaultStatus]"
  by (simp add: getTagDataEvent_after_sleep_def BehaviorSubject_get_def)

lemma u_overlap_status:
  "downloadStatus u_overlap =
     \<lparr>run = True, progress = Num 40, info = ''40%'', complete = False, error = False\<rparr>"
  "loadLock u_overlap"
  by code_simp+

theorem grace_reset_unconditional_witness:
  "downloadStatus u_overlap =
     \<lparr>run = True, progress = Num 40, info = ''40%'', complete = False, error = False\<rparr>
   \<and> loadLock u_overlap
   \<and> downloadStatus (getTagDataEvent_after_sleep u_overlap) = defaultStatus
   \<and> effects (getTagDataEvent_after_sleep u_overlap) =
       effects u_overlap @ [BadgeSet [] ''#4A90E2'' None, Broadcast defaultStatus]"
  using grace_reset_unconditional [of u_overlap] u_overlap_status by simp

section \<open>Rounding to double precision\<close>

lemma two_powi_pos [simp]: "0 < (2::rat) powi k"
  by (simp add: zero_less_power_int)

lemma bitlen_powi_bounds:
  assumes "0 < a"
  shows "2 powi (bitlen a - 1) \<le> (of_int a :: rat)" "(of_int a :: rat) < 2 powi bitlen a"
proof -
  have ge1: "1 \<le> bitlen a"
    using assms by (simp add: bitlen_alt_def)
  from bitlen_bounds [OF assms]
  have lo: "2 ^ nat (bitlen a - 1) \<le> a" and hi: "a < 2 ^ nat (bitlen a)"
    by simp_all
  have "(of_int (2 ^ nat (bitlen a - 1)) :: rat) \<le> of_int a"
    using lo by (simp only: of_int_le_iff)
  then show "2 powi (bitlen a - 1) \<le> (of_int a :: rat)"
    using ge1 by (simp add: power_int_nonneg_exp)
  have "(of_int a :: rat) < of_int (2 ^ nat (bitlen a))"
    using hi by (simp only: of_int_less_iff)
  then show "(of_int a :: rat) < 2 powi bitlen a"
    using ge1 by (simp add: power_int_nonneg_exp)
qed

lemma binade_bounds:
  assumes "0 < x"
  shows "2 powi binade x \<le> x \<and> x < 2 powi (binade x + 1)"
proof -
  obtain a b where q: "quotient_of x = (a, b)"
    by (cases "quotient_of x")
  have b: "0 < b" using q by (rule quotient_of_denom_pos)
  have x: "x = of_int a / of_int b" using q by (rule quotient_of_div)
  have a: "0 < a" using assms b x by (simp add: zero_less_divide_iff)
  define la lb where "la = bitlen a" and "lb = bitlen b"
  note A = bitlen_powi_bounds [OF a, folded la_def]
  note B = bitlen_powi_bounds [OF b, folded lb_def]
  have bpos: "0 < (of_int b :: rat)" using b by simp
  have apos: "0 < (of_int a :: rat)" using a by simp
  have up: "x < 2 powi (la - lb + 1)"
  proof -
    have "of_int a * 2 powi (lb - 1) < 2 powi la * (of_int b :: rat)"
      using A(2) B(1) apos by (intro mult_less_le_imp_less) simp_all
    then have "of_int a / of_int b < 2 powi la / (2 powi (lb - 1) :: rat)"
      using bpos by (simp add: field_simps)
    also have "2 powi la / (2 powi (lb - 1) :: rat) = 2 powi (la - lb + 1)"
      by (simp add: power_int_diff [symmetric] algebra_simps)
    finally show ?thesis by (simp add: x)
  qed
  have low: "2 powi (la - lb - 1) < x"
  proof -
    have "2 powi (la - 1) * (of_int b :: rat) < of_int a * 2 powi lb"
      using A(1) B(2) bpos by (intro mult_le_less_imp_less) simp_all
    then have "2 powi (la - 1) / (2 powi lb :: rat) < of_int a / of_int b"
      using bpos by (simp add: field_simps)
    moreover have "2 powi (la - 1) / (2 powi lb :: rat) = 2 powi (la - lb - 1)"
      by (simp add: power_int_diff [symmetric] algebra_simps)
    ultimately show ?thesis by (simp add: x)
  qed
  show ?thesis
    using up low q by (auto simp add: binade_def la_def lb_def Let_def)
qed

lemma binade_mono:
  assumes "0 < x" and "x \<le> y"
  shows "binade x \<le> binade y"
proof (rule ccontr)
  assume "\<not> binade x \<le> binade y"
  then have "binade y + 1 \<le> binade x" by simp
  then have "(2::rat) powi (binade y + 1) \<le> 2 powi binade x"
    by (intro power_int_increasing) simp_all
  moreover have "y < 2 powi (binade y + 1)"
    using binade_bounds [of y] assms by simp
  moreover have "2 powi binade x \<le> x"
    using binade_bounds [OF assms(1)] by simp
  ultimately show False using assms(2) by simp
qed

lemma round_half_even_bounds:
  "\<lfloor>m\<rfloor> \<le> round_half_even m" "round_half_even m \<le> \<lfloor>m\<rfloor> + 1"
  by (simp_all add: round_half_even_def Let_def)

lemma round_half_even_of_int [simp]: "round_half_even (of_int n) = n"
  by (simp add: round_half_even_def)

lemma round_half_even_mono:
  assumes "a \<le> b"
  shows "round_half_even a \<le> round_half_even b"
proof (cases "\<lfloor>a\<rfloor> = \<lfloor>b\<rfloor>")
  case True
  then show ?thesis
    using assms by (auto simp add: round_half_even_def Let_def)
next
  case False
  then have "\<lfloor>a\<rfloor> + 1 \<le> \<lfloor>b\<rfloor>"
    using floor_mono [OF assms] by simp
  then show ?thesis
    using round_half_even_bounds(2) [of a] round_half_even_bounds(1) [of b] by simp
qed

lemma to_double_pos_eq:
  "0 < x \<Longrightarrow>
   to_double x = of_int (round_half_even (x / 2 powi (binade x - 52))) * 2 powi (binade x - 52)"
  by (simp add: to_double_def Let_def)

lemma to_double_bounds:
  assumes "0 < x"
  shows "2 powi binade x \<le> to_double x" "to_double x \<le> 2 powi (binade x + 1)"
proof -
  define e where "e = binade x"
  define ulp :: rat where "ulp = 2 powi (e - 52)"
  have ulp: "0 < ulp" by (simp add: ulp_def)
  have lo: "2 powi e \<le> x" and hi: "x < 2 powi (e + 1)"
    using binade_bounds [OF assms] by (simp_all add: e_def)
  have e52: "(2::rat) powi e = 2 ^ 52 * ulp"
    unfolding ulp_def by (simp add: power_int_diff)
  have e53: "(2::rat) powi (e + 1) = 2 ^ 53 * ulp"
    unfolding ulp_def by (simp add: power_int_diff power_int_add)
  have "2 ^ 52 * ulp \<le> x"
    using lo by (simp only: e52)
  then have "2 ^ 52 \<le> x / ulp"
    using ulp by (simp add: field_simps)
  then have "of_int (2 ^ 52) \<le> x / ulp"
    by simp
  then have "round_half_even (of_int (2 ^ 52)) \<le> round_half_even (x / ulp)"
    by (rule round_half_even_mono)
  then have "(of_int (2 ^ 52) :: rat) \<le> of_int (round_half_even (x / ulp))"
    by (simp only: round_half_even_of_int of_int_le_iff)
  then have "2 ^ 52 * ulp \<le> of_int (round_half_even (x / ulp)) * ulp"
    using ulp by simp
  then show "2 powi binade x \<le> to_double x"
    using assms by (simp add: to_double_pos_eq e52 [unfolded e_def] ulp_def e_def)
  have "x < 2 ^ 53 * ulp"
    using hi by (simp only: e53)
  then have "x / ulp < 2 ^ 53"
    using ulp by (simp add: field_simps)
  then have "x / ulp \<le> of_int (2 ^ 53)"
    by simp
  then have "round_half_even (x / ulp) \<le> round_half_even (of_int (2 ^ 53))"
    by (rule round_half_even_mono)
  then have "(of_int (round_half_even (x / ulp)) :: rat) \<le> of_int (2 ^ 53)"
    by (simp only: round_half_even_of_int of_int_le_iff)
  then have "of_int (round_half_even (x / ulp)) * ulp \<le> 2 ^ 53 * ulp"
    using ulp by simp
  then show "to_double x \<le> 2 powi (binade x + 1)"
    using assms by (simp add: to_double_pos_eq e53 [unfolded e_def] ulp_def e_def)
qed

lemma to_double_pos: "0 < x \<Longrightarrow> 0 < to_double x"
  using to_double_bounds(1) [of x] two_powi_pos [of "binade x"] by linarith

lemma to_double_nonneg: "0 \<le> x \<Longrightarrow> 0 \<le> to_double x"
  using to_double_pos [of x] by (cases "x = 0") (simp_all add: to_double_def)

lemma to_double_mono:
  assumes "0 \<le> x" and "x \<le> y"
  shows "to_double x \<le> to_double y"
proof (cases "x = 0")
  case True
  then show ?thesis
    using assms to_double_nonneg [of y] by (simp add: to_double_def)
next
  case False
  then have x: "0 < x" and y: "0 < y" using assms by simp_all
  have "binade x \<le> binade y" using x assms(2) by (rule binade_mono)
  then consider "binade x = binade y" | "binade x + 1 \<le> binade y" by linarith
  then show ?thesis
  proof cases
    case 1
    have "x / 2 powi (binade y - 52) \<le> y / 2 powi (binade y - 52)"
      using assms(2) by (simp add: divide_right_mono)
    then have "round_half_even (x / 2 powi (binade y - 52))
        \<le> round_half_even (y / 2 powi (binade y - 52))"
      by (rule round_half_even_mono)
    then show ?thesis
      using x y by (simp add: to_double_pos_eq 1)
  next
    case 2
    have "to_double x \<le> 2 powi (binade x + 1)" using x by (rule to_double_bounds)
    also have "\<dots> \<le> 2 powi binade y"
      using 2 by (intro power_int_increasing) simp_all
    also have "\<dots> \<le> to_double y" using y by (rule to_double_bounds)
    finally show ?thesis .
  qed
qed

lemma to_double_1 [simp]: "to_double 1 = 1"
  by code_simp

lemma to_double_100 [simp]: "to_double 100 = 100"
  by code_simp

section \<open>The percentage of the progress handler\<close>

lemma js_number_nonneg: "0 \<le> js_number n"
  by (simp add: js_number_def to_double_nonneg)

lemma js_number_pos: "0 < n \<Longrightarrow> 0 < js_number n"
  by (simp add: js_number_def to_double_pos)

lemma js_number_mono: "m \<le> n \<Longrightarrow> js_number m \<le> js_number n"
  by (simp add: js_number_def to_double_mono)

lemma js_div_mono:
  "0 \<le> a \<Longrightarrow> a \<le> a' \<Longrightarrow> 0 < b \<Longrightarrow> js_div a b \<le> js_div a' b"
  by (simp add: js_div_def to_double_mono divide_right_mono)

lemma js_div_nonneg: "0 \<le> a \<Longrightarrow> 0 < b \<Longrightarrow> 0 \<le> js_div a b"
  by (simp add: js_div_def to_double_nonneg)

lemma js_div_le_1: "0 \<le> a \<Longrightarrow> a \<le> b \<Longrightarrow> 0 < b \<Longrightarrow> js_div a b \<le> 1"
  unfolding js_div_def using to_double_mono [of "a / b" 1] by simp

lemma js_mul_100_mono: "0 \<le> a \<Longrightarrow> a \<le> a' \<Longrightarrow> js_mul a 100 \<le> js_mul a' 100"
  by (simp add: js_mul_def to_double_mono)

lemma js_mul_100_le: "0 \<le> a \<Longrightarrow> a \<le> 1 \<Longrightarrow> js_mul a 100 \<le> 100"
  unfolding js_mul_def using to_double_mono [of "a * 100" 100] by simp

lemma js_mul_100_nonneg: "0 \<le> a \<Longrightarrow> 0 \<le> js_mul a 100"
  by (simp add: js_mul_def to_double_nonneg)

lemma js_percent_Num:
  "0 < t \<Longrightarrow>
   js_percent l t = Num (nat \<lfloor>js_mul (js_div (js_number l) (js_number t)) 100\<rfloor>)"
  using js_number_pos [of t] by (simp add: js_percent_def)

lemma percent_le_100:
  assumes "0 < t" and "l \<le> t"
  shows "nat \<lfloor>js_mul (js_div (js_number l) (js_number t)) 100\<rfloor> \<le> 100"
proof -
  have "js_div (js_number l) (js_number t) \<le> 1"
    using assms by (intro js_div_le_1 js_number_nonneg js_number_mono js_number_pos)
  moreover have "0 \<le> js_div (js_number l) (js_number t)"
    using assms by (intro js_div_nonneg js_number_nonneg js_number_pos)
  ultimately have "js_mul (js_div (js_number l) (js_number t)) 100 \<le> 100"
    by (intro js_mul_100_le)
  then have "\<lfloor>js_mul (js_div (js_number l) (js_number t)) 100\<rfloor> \<le> \<lfloor>100::rat\<rfloor>"
    by (rule floor_mono)
  also have "\<lfloor>100::rat\<rfloor> = 100" by simp
  finally show ?thesis by linarith
qed

lemma percent_mono:
  assumes "0 < t" and "l \<le> l'"
  shows "nat \<lfloor>js_mul (js_div (js_number l) (js_number t)) 100\<rfloor>
       \<le> nat \<lfloor>js_mul (js_div (js_number l') (js_number t)) 100\<rfloor>"
proof -
  have "js_div (js_number l) (js_number t) \<le> js_div (js_number l') (js_number t)"
    using assms by (intro js_div_mono js_number_nonneg js_number_mono js_number_pos)
  moreover have "0 \<le> js_div (js_number l) (js_number t)"
    using assms by (intro js_div_nonneg js_number_nonneg js_number_pos)
  ultimately have "js_mul (js_div (js_number l) (js_number t)) 100
      \<le> js_mul (js_div (js_number l') (js_number t)) 100"
    by (intro js_mul_100_mono)
  then show ?thesis
    by (intro nat_mono floor_mono)
qed

section \<open>What a run publishes\<close>

lemma spread_simps [simp]:
  "spread s [] = s"
  "spread s (f # fs) = spread (assign f s) fs"
  by (simp_all add: spread_def)

lemma published_since_append:
  "effects u' = effects u @ es \<Longrightarrow> published_since u u' = published es"
  by (simp add: published_since_def)

lemma same_flags_refl [simp]: "same_flags s s"
  by (simp add: same_flags_def)

lemma same_flags_trans: "same_flags a b \<Longrightarrow> same_flags b c \<Longrightarrow> same_flags a c"
  by (simp add: same_flags_def)

text \<open>The handlers of the transfer publish statuses that differ in text and progress only.\<close>

lemma dispatch_flags:
  assumes "dispatch rel ev (p, u) = (p', u')"
  shows "\<exists>es. effects u' = effects u @ es
           \<and> (\<forall>s\<in>set (published es). same_flags s (downloadStatus u))
           \<and> same_flags (downloadStatus u') (downloadStatus u)"
proof (cases ev)
  case (OnProgress event)
  then show ?thesis
    using assms
    by (cases "lengthComputable event")
      (auto simp add: xhr_onprogress_def Let_def same_flags_def)
next
  case (OnLoad response)
  then show ?thesis
    using assms by (cases response) (auto simp add: xhr_onload_def same_flags_def)
next
  case OnError
  then show ?thesis
    using assms by (auto simp add: xhr_onerror_def)
qed

lemma xhr_run_Cons:
  "xhr_run rel (ev # events) pu = xhr_run rel events (dispatch rel ev pu)"
  by (simp add: xhr_run_def)

lemma xhr_run_flags:
  "xhr_run rel events (p, u) = (p', u') \<Longrightarrow>
   \<exists>es. effects u' = effects u @ es
      \<and> (\<forall>s\<in>set (published es). same_flags s (downloadStatus u))
      \<and> same_flags (downloadStatus u') (downloadStatus u)"
proof (induction events arbitrary: p u)
  case Nil
  then show ?case by (simp add: xhr_run_def)
next
  case (Cons ev events)
  obtain p1 u1 where d: "dispatch rel ev (p, u) = (p1, u1)"
    by (cases "dispatch rel ev (p, u)")
  from dispatch_flags [OF d] obtain es1 where
    es1: "effects u1 = effects u @ es1"
      "\<forall>s\<in>set (published es1). same_flags s (downloadStatus u)"
      "same_flags (downloadStatus u1) (downloadStatus u)"
    by blast
  from Cons.prems d have "xhr_run rel events (p1, u1) = (p', u')"
    by (simp add: xhr_run_Cons)
  from Cons.IH [OF this] obtain es2 where
    es2: "effects u' = effects u1 @ es2"
      "\<forall>s\<in>set (published es2). same_flags s (downloadStatus u1)"
      "same_flags (downloadStatus u') (downloadStatus u1)"
    by blast
  have "effects u' = effects u @ (es1 @ es2)"
    using es1(1) es2(1) by simp
  moreover have "\<forall>s\<in>set (published (es1 @ es2)). same_flags s (downloadStatus u)"
    using es1(2,3) es2(2) by (auto intro: same_flags_trans)
  moreover have "same_flags (downloadStatus u') (downloadStatus u)"
    using es1(3) es2(3) by (rule same_flags_trans [rotated])
  ultimately show ?case by blast
qed

lemma download_transfer_flags:
  assumes "download_transfer rel url events u = (p, u')"
  shows "\<exists>es. effects u' = effects u @ es
           \<and> (\<forall>s\<in>set (published es). same_flags s (downloadStatus u))
           \<and> same_flags (downloadStatus u') (downloadStatus u)"
proof -
  define u0 where "u0 = badgeLoading_set ''0'' ''#4A90E2'' (Some 1)
    (pushDownloadStatus [F_info ''0%'', F_progress (Num 0)] (emit (XhrSend url) u))"
  have run: "xhr_run rel events (Pending, u0) = (p, u')"
    using assms by (simp add: download_transfer_def u0_def)
  have u0: "effects u0 = effects u @ [XhrSend url, Broadcast (downloadStatus u0),
      BadgeSet ''0'' ''#4A90E2'' (Some 1)]"
    "same_flags (downloadStatus u0) (downloadStatus u)"
    by (simp_all add: u0_def same_flags_def)
  from xhr_run_flags [OF run] obtain es where
    es: "effects u' = effects u0 @ es"
      "\<forall>s\<in>set (published es). same_flags s (downloadStatus u0)"
      "same_flags (downloadStatus u') (downloadStatus u0)"
    by blast
  have "effects u' = effects u @ ([XhrSend url, Broadcast (downloadStatus u0),
      BadgeSet ''0'' ''#4A90E2'' (Some 1)] @ es)"
    using es(1) u0(1) by simp
  moreover have "\<forall>s\<in>set (published ([XhrSend url, Broadcast (downloadStatus u0),
      BadgeSet ''0'' ''#4A90E2'' (Some 1)] @ es)). same_flags s (downloadStatus u)"
    using es(2) u0(2) by (auto intro: same_flags_trans)
  moreover have "same_flags (downloadStatus u') (downloadStatus u)"
    using es(3) u0(2) by (rule same_flags_trans)
  ultimately show ?thesis by blast
qed

text \<open>
  What \<^verbatim>\<open>download()\<close> publishes has \<^verbatim>\<open>run\<close> on, and \<^verbatim>\<open>complete\<close> and \<^verbatim>\<open>error\<close> as they were.
\<close>

lemma download_flags:
  assumes "download env events u = (p, u')"
  shows "\<exists>es. effects u' = effects u @ es
           \<and> (\<forall>s\<in>set (published es).
                 run s \<and> complete s = complete (downloadStatus u)
                 \<and> error s = error (downloadStatus u))
           \<and> complete (downloadStatus u') = complete (downloadStatus u)
           \<and> error (downloadStatus u') = error (downloadStatus u)"
proof (cases "loadLock u")
  case True
  then show ?thesis
    using assms by (simp add: download_locked)
next
  case False
  define ub where "ub = download_begin u"
  obtain r u2 where cv: "checkVersion False env ub = (r, u2)"
    by (cases "checkVersion False env ub")
  have u2s: "downloadStatus u2 = downloadStatus ub"
    using checkVersion_frame(2) [of False env ub] cv by simp
  obtain cs where cs: "effects u2 = effects ub @ cs" "published cs = []"
    using checkVersion_effects [of False env ub] cv by (cases "rate_limited env ub") auto
  have ub: "run (downloadStatus ub)" "complete (downloadStatus ub) = complete (downloadStatus u)"
    "error (downloadStatus ub) = error (downloadStatus u)"
    "effects ub = effects u @ [BadgeSet [] ''#4A90E2'' (Some 2), Broadcast (downloadStatus ub)]"
    by (simp_all add: ub_def)
  have early: ?thesis if "effects u' = effects u2" "downloadStatus u' = downloadStatus u2"
  proof -
    have "effects u' = effects u @
        ([BadgeSet [] ''#4A90E2'' (Some 2), Broadcast (downloadStatus ub)] @ cs)"
      using that(1) cs(1) ub(4) by simp
    moreover have "\<forall>s\<in>set (published
        ([BadgeSet [] ''#4A90E2'' (Some 2), Broadcast (downloadStatus ub)] @ cs)).
        run s \<and> complete s = complete (downloadStatus u) \<and> error s = error (downloadStatus u)"
      using cs(2) ub(1-3) by simp
    moreover have "complete (downloadStatus u') = complete (downloadStatus u)"
      "error (downloadStatus u') = error (downloadStatus u)"
      using that(2) u2s ub(2,3) by simp_all
    ultimately show ?thesis by blast
  qed
  show ?thesis
  proof (cases r)
    case (Thrown e)
    then have "u' = u2"
      using assms False cv by (simp add: download_check_thrown ub_def)
    then show ?thesis by (intro early) simp_all
  next
    case Pending
    then show ?thesis
      using checkVersion_not_Pending [of False env ub] cv by simp
  next
    case (Returned checkData)
    note dl = download_checked [OF False cv [unfolded ub_def Returned], of events]
    show ?thesis
    proof (cases "release_assets checkData")
      case None
      then have "u' = u2\<lparr>loadLock := False\<rparr>"
        using assms dl by simp
      then show ?thesis by (intro early) simp_all
    next
      case (Some ra)
      obtain rel as where ra: "ra = (rel, as)" by (cases ra)
      show ?thesis
      proof (cases "asset_url as = []")
        case True
        then have "u' = u2\<lparr>loadLock := False\<rparr>"
          using assms dl Some ra by simp
        then show ?thesis by (intro early) simp_all
      next
        case False
        then have "download_transfer rel (asset_url as) events u2 = (p, u')"
          using assms dl Some ra by simp
        from download_transfer_flags [OF this] obtain es where
          es: "effects u' = effects u2 @ es"
            "\<forall>s\<in>set (published es). same_flags s (downloadStatus u2)"
            "same_flags (downloadStatus u') (downloadStatus u2)"
          by blast
        have "effects u' = effects u @
            ([BadgeSet [] ''#4A90E2'' (Some 2), Broadcast (downloadStatus ub)] @ cs @ es)"
          using es(1) cs(1) ub(4) by simp
        moreover have "\<forall>s\<in>set (published
            ([BadgeSet [] ''#4A90E2'' (Some 2), Broadcast (downloadStatus ub)] @ cs @ es)).
            run s \<and> complete s = complete (downloadStatus u) \<and> error s = error (downloadStatus u)"
          using cs(2) ub(1-3) es(2) u2s by (auto simp add: same_flags_def)
        moreover have "complete (downloadStatus u') = complete (downloadStatus u)"
          "error (downloadStatus u') = error (downloadStatus u)"
          using es(3) u2s ub(2,3) by (simp_all add: same_flags_def)
        ultimately show ?thesis by blast
      qed
    qed
  qed
qed

lemma coherent_simps [simp]:
  "coherent defaultStatus"
  "\<not> complete s \<Longrightarrow> \<not> error s \<Longrightarrow> coherent s"
  by (simp_all add: coherent_def defaultStatus_def)

lemma defaultStatus_flags [simp]:
  "\<not> run defaultStatus" "\<not> complete defaultStatus" "\<not> error defaultStatus"
  by (simp_all add: defaultStatus_def)

text \<open>
  Line 55 publishes completion with \<^verbatim>\<open>run: true\<close>, and a failed update leaves the error
  status in place when it ends.
\<close>

theorem status_invariant_counterexample:
  "Broadcast \<lparr>run = True, progress = Num 100, info = msg_update_complete, complete = True,
              error = False\<rparr>
     \<in> set (effects (snd (getTagDataEvent env_soon [OnLoad (Some ''blob'')] db_answer u_checked)))
   \<and> downloadStatus (snd (getTagDataEvent env_no_bundle [] db_answer new_Update))
       = \<lparr>run = False, progress = Num 0, info = msg_asset_url_missing, complete = False,
          error = True\<rparr>
   \<and> downloadStatus (snd (getTagDataEvent env_no_bundle [] db_answer new_Update)) \<noteq> defaultStatus"
  by code_simp

text \<open>
  Claim C3, as the code has it.  Every status that one \<^verbatim>\<open>getTagDataEvent\<close> run publishes,
  with no other operation running meanwhile, is coherent: never \<^verbatim>\<open>complete\<close> and
  \<^verbatim>\<open>error\<close> at once, \<^verbatim>\<open>error\<close> only with \<^verbatim>\<open>run\<close> off, \<^verbatim>\<open>complete\<close> only with \<^verbatim>\<open>run\<close> on.
  The first status of the run is the idle one.  A run that succeeds ends in the idle status
  after its grace period; a run that fails ends in an error status with \<^verbatim>\<open>run\<close> off, which
  stays until the next run; a run whose download never settles reports neither completion
  nor failure.
\<close>

theorem getTagDataEvent_statuses:
  "(\<forall>s\<in>set (published_since u (snd (getTagDataEvent env events answer u))). coherent s)
   \<and> (\<exists>rest. published_since u (snd (getTagDataEvent env events answer u)) = defaultStatus # rest)
   \<and> (case fst (getTagDataEvent_until_sleep env events answer u) of
         InGrace \<Rightarrow> downloadStatus (snd (getTagDataEvent env events answer u)) = defaultStatus
       | Failed \<Rightarrow>
           error (downloadStatus (snd (getTagDataEvent env events answer u)))
           \<and> \<not> run (downloadStatus (snd (getTagDataEvent env events answer u)))
           \<and> \<not> complete (downloadStatus (snd (getTagDataEvent env events answer u)))
       | Stuck \<Rightarrow> unfinished (downloadStatus (snd (getTagDataEvent env events answer u))))"
proof -
  define u0 where "u0 = initDownloadStatus u"
  obtain p u1 where dl: "download env events u0 = (p, u1)"
    by (cases "download env events u0")
  from download_flags [OF dl] obtain es where
    es: "effects u1 = effects u0 @ es"
      "\<forall>s\<in>set (published es). run s \<and> complete s = complete (downloadStatus u0)
          \<and> error s = error (downloadStatus u0)"
      "complete (downloadStatus u1) = complete (downloadStatus u0)"
      "error (downloadStatus u1) = error (downloadStatus u0)"
    by blast
  have u1: "effects u1 = effects u @ (Broadcast defaultStatus # es)"
    "\<not> complete (downloadStatus u1)" "\<not> error (downloadStatus u1)"
    using es(1,3,4) by (simp_all add: u0_def)
  have quiet: "\<forall>s\<in>set (published es). coherent s"
    using es(2) by (simp add: u0_def)
  have failed: ?thesis
    if "getTagDataEvent_until_sleep env events answer u = (Failed, getTagDataEvent_catch err v)"
      and "effects v = effects u1 @ ds" and "published ds = []"
      and "downloadStatus v = downloadStatus u1"
    for err v ds
  proof -
    define sE where "sE = spread (downloadStatus v) [F_run False, F_error True, F_info (error_info err)]"
    have sE: "error sE" "\<not> run sE" "\<not> complete sE"
      using that(4) u1(2) by (simp_all add: sE_def)
    have "effects (getTagDataEvent_catch err v)
        = effects u @ (Broadcast defaultStatus # es @ ds @ [LogError err, Broadcast sE])"
      using that(2) u1(1) by (simp add: getTagDataEvent_catch_def sE_def)
    then have "published_since u (getTagDataEvent_catch err v)
        = defaultStatus # published es @ [sE]"
      using that(3) by (simp add: published_since_append)
    moreover have "downloadStatus (getTagDataEvent_catch err v) = sE"
      by (simp add: getTagDataEvent_catch_def sE_def)
    moreover have "coherent sE"
      using sE by (simp add: coherent_def)
    ultimately show ?thesis
      using that(1) quiet sE by (simp add: getTagDataEvent_def)
  qed
  show ?thesis
  proof (cases p)
    case Pending
    then have "getTagDataEvent_until_sleep env events answer u = (Stuck, u1)"
      using dl by (simp add: getTagDataEvent_until_sleep_def u0_def)
    moreover have "published_since u u1 = defaultStatus # published es"
      using u1(1) by (simp add: published_since_append)
    ultimately show ?thesis
      using quiet u1(2,3) by (simp add: getTagDataEvent_def unfinished_def)
  next
    case (Thrown err)
    then have "getTagDataEvent_until_sleep env events answer u
        = (Failed, getTagDataEvent_catch err u1)"
      using dl by (simp add: getTagDataEvent_until_sleep_def u0_def)
    then show ?thesis
      by (rule failed [where ds = "[]"]) simp_all
  next
    case (Returned res)
    obtain rel db where res: "res = (rel, db)" by (cases res)
    define u2 where "u2 = emit (DbUpdate db (html_url rel)) u1"
    show ?thesis
    proof (cases answer)
      case (DbFailed err)
      then have "getTagDataEvent_until_sleep env events answer u
          = (Failed, getTagDataEvent_catch err u2)"
        using dl Returned res
        by (simp add: getTagDataEvent_until_sleep_def u0_def u2_def Let_def)
      then show ?thesis
        by (rule failed [where ds = "[DbUpdate db (html_url rel)]"]) (simp_all add: u2_def)
    next
      case (DbUpdated sha link)
      define sC where "sC = spread (downloadStatus u1)
        [F_run True, F_info msg_update_complete, F_progress (Num 100), F_complete True]"
      define u5 where "u5 = emit (Sleep 2500)
        ((pushDownloadStatus
            [F_run True, F_info msg_update_complete, F_progress (Num 100), F_complete True]
            (badgeLoading_set ''OK'' ''#00C801'' None u2))
         \<lparr>lastCheckData :=
            (lastCheckData (pushDownloadStatus
               [F_run True, F_info msg_update_complete, F_progress (Num 100), F_complete True]
               (badgeLoading_set ''OK'' ''#00C801'' None u2)))
            \<lparr>old := sha, oldLink := link\<rparr>\<rparr>)"
      have until: "getTagDataEvent_until_sleep env events answer u = (InGrace, u5)"
        using dl Returned res DbUpdated
        by (simp add: getTagDataEvent_until_sleep_def u0_def u2_def u5_def Let_def)
      have sC: "run sC" "complete sC" "\<not> error sC"
        using u1(3) by (simp_all add: sC_def)
      have "effects (getTagDataEvent_after_sleep u5)
          = effects u @ (Broadcast defaultStatus # es @
              [DbUpdate db (html_url rel), BadgeSet ''OK'' ''#00C801'' None, Broadcast sC,
               Sleep 2500, BadgeSet [] ''#4A90E2'' None, Broadcast defaultStatus])"
        using u1(1)
        by (simp add: getTagDataEvent_after_sleep_def BehaviorSubject_get_def u5_def u2_def sC_def)
      then have "published_since u (getTagDataEvent_after_sleep u5)
          = defaultStatus # published es @ [sC, defaultStatus]"
        by (simp add: published_since_append)
      moreover have "downloadStatus (getTagDataEvent_after_sleep u5) = defaultStatus"
        by (simp add: getTagDataEvent_after_sleep_def BehaviorSubject_get_def)
      moreover have "coherent sC"
        using sC by (simp add: coherent_def)
      ultimately show ?thesis
        using until quiet by (simp add: getTagDataEvent_def)
    qed
  qed
qed

lemma update_example_phase:
  "fst (getTagDataEvent_until_sleep env_soon [OnLoad (Some ''blob'')] db_answer u_checked) = InGrace"
  by code_simp

theorem getTagDataEvent_statuses_witness:
  "list_all coherent
     (published_since u_checked
        (snd (getTagDataEvent env_soon [OnLoad (Some ''blob'')] db_answer u_checked)))
   \<and> hd (published_since u_checked
        (snd (getTagDataEvent env_soon [OnLoad (Some ''blob'')] db_answer u_checked))) = defaultStatus
   \<and> downloadStatus (snd (getTagDataEvent env_soon [OnLoad (Some ''blob'')] db_answer u_checked))
       = defaultStatus"
  using getTagDataEvent_statuses [of u_checked env_soon "[OnLoad (Some ''blob'')]" db_answer]
    update_example_phase
  by (auto simp add: list_all_iff)

section \<open>The progress values of a transfer\<close>

lemma xhr_onprogress_known:
  assumes "lengthComputable event" and "0 < total event"
  shows "xhr_onprogress event (p, u) =
     (p, badgeLoading_set
           (string_of_nat (nat \<lfloor>js_mul (js_div (js_number (loaded event)) (js_number (total event))) 100\<rfloor>))
           ''#4A90E2'' (Some 1)
           (pushDownloadStatus
              [F_info (string_of_nat (nat \<lfloor>js_mul (js_div (js_number (loaded event)) (js_number (total event))) 100\<rfloor>) @ ''%''),
               F_progress (Num (nat \<lfloor>js_mul (js_div (js_number (loaded event)) (js_number (total event))) 100\<rfloor>))]
              u))"
  using assms by (simp add: xhr_onprogress_def js_percent_Num Let_def)

lemma xhr_run_progress:
  assumes "0 < t"
  shows "transfer_events t l events \<Longrightarrow> l \<le> t \<Longrightarrow> xhr_run rel events (p, u) = (p', u') \<Longrightarrow>
     \<exists>es ns. effects u' = effects u @ es
        \<and> map progress (published es) = map Num ns \<and> sorted ns
        \<and> (\<forall>k\<in>set ns.
              nat \<lfloor>js_mul (js_div (js_number l) (js_number t)) 100\<rfloor> \<le> k \<and> k \<le> 100)"
proof (induction events arbitrary: l p u)
  case Nil
  then have "effects u' = effects u @ []" by (simp add: xhr_run_def)
  then show ?case by (intro exI [of _ "[]"]) simp
next
  case (Cons ev events)
  show ?case
  proof (cases ev)
    case (OnProgress event)
    show ?thesis
    proof (cases "lengthComputable event")
      case False
      then have "xhr_run rel events (p, u) = (p', u')"
        using Cons.prems(3) OnProgress by (simp add: xhr_run_Cons xhr_onprogress_def)
      moreover have "transfer_events t l events"
        using Cons.prems(1) OnProgress False by simp
      ultimately show ?thesis
        using Cons.IH Cons.prems(2) by blast
    next
      case True
      define n where
        "n = nat \<lfloor>js_mul (js_div (js_number (loaded event)) (js_number t)) 100\<rfloor>"
      define u1 where "u1 = badgeLoading_set (string_of_nat n) ''#4A90E2'' (Some 1)
        (pushDownloadStatus [F_info (string_of_nat n @ ''%''), F_progress (Num n)] u)"
      have ev: "total event = t" "l \<le> loaded event" "loaded event \<le> t"
        "transfer_events t (loaded event) events"
        using Cons.prems(1) OnProgress True by simp_all
      have "xhr_onprogress event (p, u) = (p, u1)"
        using xhr_onprogress_known [OF True, of p u] assms ev(1) by (simp add: u1_def n_def)
      then have "xhr_run rel events (p, u1) = (p', u')"
        using Cons.prems(3) OnProgress by (simp add: xhr_run_Cons)
      from Cons.IH [OF ev(4) ev(3) this] obtain es ns where
        IH: "effects u' = effects u1 @ es" "map progress (published es) = map Num ns"
          "sorted ns" "\<forall>k\<in>set ns. n \<le> k \<and> k \<le> 100"
        unfolding n_def by blast
      have n: "nat \<lfloor>js_mul (js_div (js_number l) (js_number t)) 100\<rfloor> \<le> n" "n \<le> 100"
        unfolding n_def using assms ev(2,3) by (simp_all add: percent_mono percent_le_100)
      define s1 where "s1 = spread (downloadStatus u) [F_info (string_of_nat n @ ''%''), F_progress (Num n)]"
      have "effects u' = effects u @
          ([Broadcast s1, BadgeSet (string_of_nat n) ''#4A90E2'' (Some 1)] @ es)"
        using IH(1) by (simp add: u1_def s1_def)
      moreover have "map progress (published
          ([Broadcast s1, BadgeSet (string_of_nat n) ''#4A90E2'' (Some 1)] @ es)) = map Num (n # ns)"
        using IH(2) by (simp add: s1_def)
      moreover have "sorted (n # ns)"
        using IH(3,4) by simp
      moreover have "\<forall>k\<in>set (n # ns).
          nat \<lfloor>js_mul (js_div (js_number l) (js_number t)) 100\<rfloor> \<le> k \<and> k \<le> 100"
        using IH(4) n by auto
      ultimately show ?thesis by blast
    qed
  next
    case (OnLoad response)
    then have last: "events = []"
      using Cons.prems(1) by simp
    have le: "nat \<lfloor>js_mul (js_div (js_number l) (js_number t)) 100\<rfloor> \<le> 100"
      using assms Cons.prems(2) by (rule percent_le_100)
    show ?thesis
    proof (cases response)
      case None
      then have "effects u' = effects u @ [BadgeSet ''ERR'' ''#C80000'' None]"
        using Cons.prems(3) OnLoad last by (auto simp add: xhr_run_def xhr_onload_def)
      then show ?thesis
        by (intro exI [of _ "[BadgeSet ''ERR'' ''#C80000'' None]"] exI [of _ "[]"]) simp
    next
      case (Some db)
      define s1 where
        "s1 = spread (downloadStatus u) [F_info msg_download_complete, F_progress (Num 100)]"
      have "effects u' = effects u @ [Broadcast s1, BadgeSet ''100'' ''#4A90E2'' (Some 1)]"
        using Cons.prems(3) OnLoad last Some by (auto simp add: xhr_run_def xhr_onload_def s1_def)
      then show ?thesis
        using le
        by (intro exI [of _ "[Broadcast s1, BadgeSet ''100'' ''#4A90E2'' (Some 1)]"]
            exI [of _ "[100]"]) (simp add: s1_def)
    qed
  next
    case OnError
    then have "effects u' = effects u @ [BadgeSet ''ERR'' ''#C80000'' None]"
      using Cons.prems(1,3) by (auto simp add: xhr_run_def xhr_onerror_def)
    then show ?thesis
      by (intro exI [of _ "[BadgeSet ''ERR'' ''#C80000'' None]"] exI [of _ "[]"]) simp
  qed
qed

lemma download_transfer_progress:
  assumes "0 < t" and "transfer_events t 0 events"
    and "download_transfer rel url events u = (p, u')"
  shows "\<exists>es ns. effects u' = effects u @ es
           \<and> map progress (published es) = map Num (0 # ns) \<and> sorted ns
           \<and> (\<forall>k\<in>set ns. k \<le> 100)"
proof -
  define s0 where "s0 = spread (downloadStatus u) [F_info ''0%'', F_progress (Num 0)]"
  define u0 where "u0 = badgeLoading_set ''0'' ''#4A90E2'' (Some 1)
    (pushDownloadStatus [F_info ''0%'', F_progress (Num 0)] (emit (XhrSend url) u))"
  have run: "xhr_run rel events (Pending, u0) = (p, u')"
    using assms(3) by (simp add: download_transfer_def u0_def)
  from xhr_run_progress [OF assms(1,2) _ run] obtain es ns where
    es: "effects u' = effects u0 @ es" "map progress (published es) = map Num ns"
      "sorted ns" "\<forall>k\<in>set ns. k \<le> 100"
    by auto
  have "effects u' = effects u @
      ([XhrSend url, Broadcast s0, BadgeSet ''0'' ''#4A90E2'' (Some 1)] @ es)"
    using es(1) by (simp add: u0_def s0_def)
  moreover have "map progress (published
      ([XhrSend url, Broadcast s0, BadgeSet ''0'' ''#4A90E2'' (Some 1)] @ es)) = map Num (0 # ns)"
    using es(2) by (simp add: s0_def)
  ultimately show ?thesis
    using es(3,4) by blast
qed

text \<open>The ways through \<^verbatim>\<open>download()\<close>: locked, ended before the transfer, or transferring.\<close>

lemma download_paths:
  assumes "download env events u = (p, u')"
  obtains (locked) "u' = u"
  | (early) cs where "effects u' = effects (download_begin u) @ cs" "published cs = []"
  | (transfer) cs u2 rel url where "effects u2 = effects (download_begin u) @ cs"
      "published cs = []" "download_transfer rel url events u2 = (p, u')"
proof (cases "loadLock u")
  case True
  then have "u' = u"
    using assms by (simp add: download_locked)
  then show ?thesis by (rule locked)
next
  case False
  obtain r u2 where cv: "checkVersion False env (download_begin u) = (r, u2)"
    by (cases "checkVersion False env (download_begin u)")
  obtain cs where cs: "effects u2 = effects (download_begin u) @ cs" "published cs = []"
    using checkVersion_effects [of False env "download_begin u"] cv
    by (cases "rate_limited env (download_begin u)") auto
  show ?thesis
  proof (cases r)
    case (Thrown e)
    then have "u' = u2"
      using assms False cv by (simp add: download_check_thrown)
    then show ?thesis using cs by (intro early [of cs]) simp_all
  next
    case Pending
    then show ?thesis
      using checkVersion_not_Pending [of False env "download_begin u"] cv by simp
  next
    case (Returned checkData)
    note dl = download_checked [OF False cv [unfolded Returned], of events]
    show ?thesis
    proof (cases "release_assets checkData")
      case None
      then have "u' = u2\<lparr>loadLock := False\<rparr>"
        using assms dl by simp
      then show ?thesis using cs by (intro early [of cs]) simp_all
    next
      case (Some ra)
      obtain rel as where ra: "ra = (rel, as)" by (cases ra)
      show ?thesis
      proof (cases "asset_url as = []")
        case True
        then have "u' = u2\<lparr>loadLock := False\<rparr>"
          using assms dl Some ra by simp
        then show ?thesis using cs by (intro early [of cs]) simp_all
      next
        case False
        then have "download_transfer rel (asset_url as) events u2 = (p, u')"
          using assms dl Some ra by simp
        then show ?thesis using cs by (intro transfer [of u2 cs]) simp_all
      qed
    qed
  qed
qed

lemma download_progress:
  assumes "0 < t" and "transfer_events t 0 events" and "progress (downloadStatus u) = Num 0"
  shows "\<exists>ns. map progress (published_since u (snd (download env events u))) = map Num ns
           \<and> sorted ns \<and> (\<forall>n\<in>set ns. n \<le> 100)"
proof -
  obtain p u' where dl: "download env events u = (p, u')"
    by (cases "download env events u")
  define sb where "sb = spread (downloadStatus u) [F_run True, F_info msg_loading]"
  have sb: "progress sb = Num 0"
    using assms(3) by (simp add: sb_def)
  have started: "effects (download_begin u) = effects u @ [BadgeSet [] ''#4A90E2'' (Some 2), Broadcast sb]"
    by (simp add: sb_def)
  from dl show ?thesis
  proof (cases rule: download_paths)
    case locked
    then have "published_since u u' = []"
      by (simp add: published_since_def)
    then show ?thesis
      using dl by (intro exI [of _ "[]"]) simp
  next
    case (early cs)
    then have "effects u' = effects u @ ([BadgeSet [] ''#4A90E2'' (Some 2), Broadcast sb] @ cs)"
      using started by simp
    then have "published_since u u' = [sb]"
      using early(2) by (simp add: published_since_append)
    then show ?thesis
      using dl sb by (intro exI [of _ "[0]"]) simp
  next
    case (transfer cs u2 rel url)
    from download_transfer_progress [OF assms(1,2) transfer(3)] obtain es ns where
      es: "effects u' = effects u2 @ es" "map progress (published es) = map Num (0 # ns)"
        "sorted ns" "\<forall>k\<in>set ns. k \<le> 100"
      by blast
    have "effects u' = effects u @ ([BadgeSet [] ''#4A90E2'' (Some 2), Broadcast sb] @ cs @ es)"
      using es(1) transfer(1) started by simp
    then have "published_since u u' = sb # published es"
      using transfer(2) by (simp add: published_since_append)
    then have "map progress (published_since u u') = map Num (0 # 0 # ns)"
      using es(2) sb by simp
    then show ?thesis
      using dl es(3,4) by (intro exI [of _ "0 # 0 # ns"]) simp
  qed
qed

text \<open>
  The handler of lines 155-161 publishes what the event gives: a count above the total
  publishes more than 100, and a count below the one before publishes a smaller value.
\<close>

theorem progress_published_counterexample:
  "map progress (published_since u_checked
      (snd (download env_soon
         [OnProgress \<lparr>lengthComputable = True, loaded = 200, total = 100\<rparr>] u_checked)))
     = [Num 0, Num 0, Num 200]
   \<and> map progress (published_since u_checked
      (snd (download env_soon
         [OnProgress \<lparr>lengthComputable = True, loaded = 57, total = 100\<rparr>,
          OnProgress \<lparr>lengthComputable = True, loaded = 29, total = 100\<rparr>] u_checked)))
     = [Num 0, Num 0, Num 56, Num 28]"
  by code_simp

text \<open>
  Claim C9, as the code has it.  A progress event whose size is known publishes the
  percentage \<^verbatim>\<open>Math.floor(loaded / total * 100)\<close>, computed in double precision, as
  \<^verbatim>\<open>progress\<close>, the same number followed by \<^verbatim>\<open>%\<close> as \<^verbatim>\<open>info\<close>, and hands the same number
  to the badge; for a total above zero the percentage is the floor of the rounded product.
  The code neither clamps nor orders these values.  When the events are those of one
  transfer of \<open>t > 0\<close> bytes (\<open>transfer_events\<close>: every sized event reports the total \<open>t\<close>
  and a count that is at least the one before and at most \<open>t\<close>, and the load or error
  event comes last) and the status had progress 0 when \<^verbatim>\<open>download()\<close> was called, as line 49
  leaves it, the progress values that the download publishes never decrease and none
  exceeds 100.
\<close>

theorem progress_published:
  assumes "0 < t" and "transfer_events t 0 events" and "progress (downloadStatus u) = Num 0"
  shows "(lengthComputable event \<longrightarrow>
            progress (downloadStatus (snd (xhr_onprogress event (p, v))))
              = js_percent (loaded event) (total event)
            \<and> info (downloadStatus (snd (xhr_onprogress event (p, v))))
              = number_toString (js_percent (loaded event) (total event)) @ ''%''
            \<and> effects (snd (xhr_onprogress event (p, v)))
              = effects v @
                [Broadcast (downloadStatus (snd (xhr_onprogress event (p, v)))),
                 BadgeSet (number_toString (js_percent (loaded event) (total event)))
                   ''#4A90E2'' (Some 1)])
       \<and> (0 < total event \<longrightarrow>
            js_percent (loaded event) (total event)
              = Num (nat \<lfloor>js_mul (js_div (js_number (loaded event)) (js_number (total event))) 100\<rfloor>))
       \<and> (\<exists>ns. map progress (published_since u (snd (download env events u))) = map Num ns
             \<and> sorted ns \<and> (\<forall>n\<in>set ns. n \<le> 100))"
  using download_progress [OF assms]
  by (simp add: xhr_onprogress_def js_percent_Num Let_def)

lemma events_example_shape: "transfer_events 100 0 events_example"
  by code_simp

lemma events_example_progress:
  "map progress (published_since u_checked (snd (download env_soon events_example u_checked)))
     = [Num 0, Num 0, Num 28, Num 56, Num 100]"
  by code_simp

lemma event_29_published:
  "downloadStatus (snd (xhr_onprogress \<lparr>lengthComputable = True, loaded = 29, total = 100\<rparr>
      (Pending, u_checked)))
     = \<lparr>run = False, progress = Num 28, info = ''28%'', complete = False, error = False\<rparr>"
  by code_simp

lemma js_percent_29: "js_percent 29 100 = Num 28"
  by code_simp

theorem progress_published_witness:
  "transfer_events 100 0 events_example
   \<and> progress (downloadStatus u_checked) = Num 0
   \<and> js_percent 29 100 = Num 28
   \<and> downloadStatus (snd (xhr_onprogress
         \<lparr>lengthComputable = True, loaded = 29, total = 100\<rparr> (Pending, u_checked)))
       = \<lparr>run = False, progress = Num 28, info = ''28%'', complete = False, error = False\<rparr>
   \<and> effects (snd (xhr_onprogress
         \<lparr>lengthComputable = True, loaded = 29, total = 100\<rparr> (Pending, u_checked)))
       = effects u_checked @
         [Broadcast \<lparr>run = False, progress = Num 28, info = ''28%'', complete = False, error = False\<rparr>,
          BadgeSet ''28'' ''#4A90E2'' (Some 1)]
   \<and> map progress (published_since u_checked (snd (download env_soon events_example u_checked)))
       = [Num 0, Num 0, Num 28, Num 56, Num 100]
   \<and> (\<exists>ns. map progress (published_since u_checked (snd (download env_soon events_example u_checked)))
          = map Num ns \<and> sorted ns \<and> list_all (\<lambda>n. n \<le> 100) ns)"
proof -
  note inst = progress_published [OF _ events_example_shape, of u_checked
      "\<lparr>lengthComputable = True, loaded = 29, total = 100\<rparr>" Pending u_checked env_soon]
  have n: "string_of_nat 28 = ''28''"
    by code_simp
  show ?thesis
    using inst events_example_shape events_example_progress event_29_published js_percent_29 n
    by (simp add: list_all_iff defaultStatus_def)
qed

end
